theory Spec2Isabelle
  imports Complex_Main
begin

section \<open>Numbers and strings of the host language\<close>

text \<open>
  The program is TypeScript. Its numbers are IEEE-754 doubles; here a finite number is a
  \<^typ>\<open>real\<close> (arithmetic is exact, rounding is not modelled). Values that come out of a
  JSON payload are always finite, so they are plain reals; values that come out of
  \<open>parseFloat\<close> may also be \<open>NaN\<close> or an infinity and have the type \<open>jsnum\<close> defined
  further down.
  Strings are \<^typ>\<open>string\<close>, one \<^typ>\<open>char\<close> per code unit (the reference data is ASCII).
\<close>

section \<open>The pilot\<close>

text \<open>\<open>VatsimPilot\<close>, with the fields the functions below read. All of them come out of
  the JSON feed. \<open>flight_plan\<close> is optional; of the flight plan only \<open>arrival\<close> is read.\<close>

record flight_plan_t =
  arrival :: string

record VatsimPilot =
  latitude :: real
  longitude :: real
  groundspeed :: real
  flight_plan :: "flight_plan_t option"

section \<open>Flight category (getFlightCategory)\<close>

text \<open>
  The decoded observation, as far as \<open>getFlightCategory\<close> reads it:
  \<open>decoded.visibility?.value\<close> and \<open>decoded.clouds\<close>, a list of layers with a
  \<open>quantity\<close> and an optional \<open>height\<close>. \<open>None\<close> stands for \<open>undefined\<close>.
\<close>

record cloud =
  quantity :: string
  height :: "real option"

record decoded_metar =
  visibility :: "real option"
  clouds :: "cloud list option"

record category_style =
  category :: string
  color :: string
  bg :: string

text \<open>\<open>v || d\<close> on an optional number: \<open>d\<close> replaces every falsy \<open>v\<close>, that is
  \<open>undefined\<close> and \<open>0\<close>.\<close>

fun or_default :: "real option \<Rightarrow> real \<Rightarrow> real" where
  "or_default None d = d"
| "or_default (Some v) d = (if v = 0 then d else v)"

text \<open>The callback of \<open>find\<close>: \<open>c.quantity === 'BKN' || c.quantity === 'OVC'\<close>.\<close>

definition is_bkn_ovc :: "cloud \<Rightarrow> bool" where
  "is_bkn_ovc c = (quantity c = ''BKN'' \<or> quantity c = ''OVC'')"

text \<open>\<open>const visibility = decoded.visibility?.value || 10\<close>\<close>

definition gfc_visibility :: "decoded_metar \<Rightarrow> real" where
  "gfc_visibility decoded = or_default (visibility decoded) 10"

text \<open>\<open>const ceiling = decoded.clouds?.find(...)?.height || 10000\<close>: the height of the
  first layer, in list order, that is broken or overcast.\<close>

definition gfc_ceiling :: "decoded_metar \<Rightarrow> real" where
  "gfc_ceiling decoded =
     or_default
       (case clouds decoded of
          None \<Rightarrow> None
        | Some cs \<Rightarrow> (case find is_bkn_ovc cs of None \<Rightarrow> None | Some c \<Rightarrow> height c))
       10000"

definition getFlightCategory :: "decoded_metar \<Rightarrow> category_style" where
  "getFlightCategory decoded =
     (let visibility = gfc_visibility decoded;
          ceiling = gfc_ceiling decoded
      in if visibility < 1 \<or> ceiling < 500 then
           \<lparr>category = ''LIFR'', color = ''text-purple-700'', bg = ''bg-purple-100 border-purple-200''\<rparr>
         else if visibility < 3 \<or> ceiling < 1000 then
           \<lparr>category = ''IFR'', color = ''text-red-700'', bg = ''bg-red-100 border-red-200''\<rparr>
         else if visibility < 5 \<or> ceiling < 3000 then
           \<lparr>category = ''MVFR'', color = ''text-yellow-700'', bg = ''bg-yellow-100 border-yellow-200''\<rparr>
         else
           \<lparr>category = ''VFR'', color = ''text-green-700'', bg = ''bg-green-100 border-green-200''\<rparr>)"

section \<open>Point in polygon (isPointInPolygon, isPointInMultiPolygon)\<close>

text \<open>
  A position is the pair \<open>[lng, lat]\<close>, longitude first, as in the boundary file. A ring is
  a list of positions, a polygon a list of rings, a multi-polygon a list of polygons.
\<close>

type_synonym point = "real \<times> real"
type_synonym ring = "point list"
type_synonym polygon = "ring list"

text \<open>
  The test of one edge, from \<open>ring[i] = (xi, yi)\<close> to \<open>ring[j] = (xj, yj)\<close>:
  \<open>((yi > lat) !== (yj > lat)) && (lng < (xj - xi) * (lat - yi) / (yj - yi) + xi)\<close>.
  The division is only evaluated when the first conjunct holds, and then \<open>yj \<noteq> yi\<close>.
\<close>

definition edge_crosses :: "point \<Rightarrow> point \<Rightarrow> point \<Rightarrow> bool" where
  "edge_crosses pt p_i p_j =
     (case pt of (lng, lat) \<Rightarrow> case p_i of (xi, yi) \<Rightarrow> case p_j of (xj, yj) \<Rightarrow>
        ((yi > lat) \<noteq> (yj > lat)) \<and> lng < (xj - xi) * (lat - yi) / (yj - yi) + xi)"

text \<open>
  The inner loop \<open>for (let i = 0, j = ring.length - 1; i < ring.length; j = i++)\<close>:
  \<open>ring_loop pt p_j rest inside\<close> runs the remaining iterations, \<open>p_j\<close> being \<open>ring[j]\<close>,
  the position visited by the previous iteration (the last position of the ring for the
  first one).
\<close>

fun ring_loop :: "point \<Rightarrow> point \<Rightarrow> ring \<Rightarrow> bool \<Rightarrow> bool" where
  "ring_loop pt p_j [] inside = inside"
| "ring_loop pt p_j (p_i # rest) inside =
     ring_loop pt p_i rest (if edge_crosses pt p_i p_j then \<not> inside else inside)"

text \<open>The value of \<open>inside\<close> after the inner loop; the loop body never runs on an empty
  ring.\<close>

definition ring_inside :: "point \<Rightarrow> ring \<Rightarrow> bool" where
  "ring_inside pt ring =
     (case ring of [] \<Rightarrow> False | _ # _ \<Rightarrow> ring_loop pt (last ring) ring False)"

text \<open>The outer loop over \<open>ringIndex\<close>, with its two early returns.\<close>

fun polygon_loop :: "point \<Rightarrow> polygon \<Rightarrow> nat \<Rightarrow> bool" where
  "polygon_loop pt [] ringIndex = True"
| "polygon_loop pt (ring # rest) ringIndex =
     (let inside = ring_inside pt ring
      in if ringIndex = 0 \<and> \<not> inside then False
         else if ringIndex > 0 \<and> inside then False
         else polygon_loop pt rest (ringIndex + 1))"

definition isPointInPolygon :: "point \<Rightarrow> polygon \<Rightarrow> bool" where
  "isPointInPolygon pt polygon = polygon_loop pt polygon 0"

definition isPointInMultiPolygon :: "point \<Rightarrow> polygon list \<Rightarrow> bool" where
  "isPointInMultiPolygon pt multiPolygon = list_ex (isPointInPolygon pt) multiPolygon"

section \<open>Strings (trim, split, startsWith)\<close>

text \<open>White space as \<open>String.prototype.trim\<close> sees it, within the first 256 code units.\<close>

definition is_space :: "char \<Rightarrow> bool" where
  "is_space c = (c \<in> set [CHR 0x09, CHR 0x0A, CHR 0x0B, CHR 0x0C, CHR 0x0D, CHR 0x20, CHR 0xA0])"

definition trim :: "string \<Rightarrow> string" where
  "trim s = rev (dropWhile is_space (rev (dropWhile is_space s)))"

text \<open>\<open>s.split(sep)\<close> for a one-character separator: at least one piece, the empty string
  gives one empty piece.\<close>

fun split_on :: "char \<Rightarrow> string \<Rightarrow> string list" where
  "split_on sep [] = [[]]"
| "split_on sep (c # cs) =
     (if c = sep then [] # split_on sep cs
      else (case split_on sep cs of [] \<Rightarrow> [[c]] | w # ws \<Rightarrow> (c # w) # ws))"

definition startsWith :: "string \<Rightarrow> char \<Rightarrow> bool" where
  "startsWith s c = (case s of [] \<Rightarrow> False | x # _ \<Rightarrow> x = c)"

definition endsWith :: "string \<Rightarrow> char \<Rightarrow> bool" where
  "endsWith s c = (case rev s of [] \<Rightarrow> False | x # _ \<Rightarrow> x = c)"

text \<open>\<open>s || undefined\<close> on a string: the empty string is falsy.\<close>

definition or_undefined :: "string \<Rightarrow> string option" where
  "or_undefined s = (if s = [] then None else Some s)"

text \<open>\<open>s.toUpperCase()\<close>, on the letters a to z; other code units are left as they are.\<close>

definition toUpperCase :: "string \<Rightarrow> string" where
  "toUpperCase s =
     map (\<lambda>c. case map_of (zip ''abcdefghijklmnopqrstuvwxyz'' ''ABCDEFGHIJKLMNOPQRSTUVWXYZ'') c of
                None \<Rightarrow> c | Some u \<Rightarrow> u) s"

text \<open>An integer in a template literal, \<open>`${n}`\<close>: its decimal digits, with a minus sign
  when negative.\<close>

fun show_nat :: "nat \<Rightarrow> string" where
  "show_nat n =
     (if n < 10 then [''0123456789'' ! n]
      else show_nat (n div 10) @ [''0123456789'' ! (n mod 10)])"

declare show_nat.simps [simp del]

definition show_int :: "int \<Rightarrow> string" where
  "show_int i = (if i < 0 then CHR ''-'' # show_nat (nat (- i)) else show_nat (nat i))"

section \<open>Numbers read from text (parseFloat)\<close>

text \<open>
  A number as \<open>parseFloat\<close> returns it: a finite value, \<open>NaN\<close> or an infinity. A finite
  value is the exact decimal value of the text; the rounding to a double, and the overflow
  to an infinity of a text beyond the range of doubles, are not modelled.
\<close>

datatype jsnum = Num real | NaN | Infinity | NegInfinity

text \<open>\<open>!x\<close> on a number: \<open>NaN\<close> and zero are falsy.\<close>

definition js_falsy :: "jsnum \<Rightarrow> bool" where
  "js_falsy x = (x = NaN \<or> x = Num 0)"

definition is_digit :: "char \<Rightarrow> bool" where
  "is_digit c = (c \<in> set ''0123456789'')"

fun digits_value :: "string \<Rightarrow> nat \<Rightarrow> nat" where
  "digits_value [] acc = acc"
| "digits_value (c # cs) acc = digits_value cs (10 * acc + (of_char c - 48))"

definition starts_with :: "string \<Rightarrow> string \<Rightarrow> bool" where
  "starts_with s pre = (take (length pre) s = pre)"

text \<open>The exponent part, if the text goes on with one: \<open>e\<close> or \<open>E\<close>, an optional sign and
  at least one digit. The result is the sign (\<open>True\<close> for minus) and the exponent; without
  an exponent part it is 0.\<close>

definition exponent_part :: "string \<Rightarrow> bool \<times> nat" where
  "exponent_part s =
     (case s of
        [] \<Rightarrow> (False, 0)
      | e # r \<Rightarrow>
          if e = CHR ''e'' \<or> e = CHR ''E'' then
            (let neg = starts_with r ''-'';
                 r' = (if starts_with r ''-'' \<or> starts_with r ''+'' then tl r else r);
                 ds = takeWhile is_digit r'
             in if ds = [] then (False, 0) else (neg, digits_value ds 0))
          else (False, 0))"

text \<open>The longest prefix that is an unsigned decimal literal: digits, an optional point
  with digits, an optional exponent part, with at least one digit before the exponent.\<close>

definition unsigned_decimal :: "string \<Rightarrow> real option" where
  "unsigned_decimal s =
     (let ip = takeWhile is_digit s;
          r = dropWhile is_digit s;
          hasDot = starts_with r ''.'';
          fp = (if hasDot then takeWhile is_digit (tl r) else []);
          r' = (if hasDot then dropWhile is_digit (tl r) else r)
      in if ip = [] \<and> fp = [] then None
         else (let mantissa = real (digits_value ip 0) + real (digits_value fp 0) / 10 ^ length fp
               in case exponent_part r' of
                    (neg, e) \<Rightarrow> Some (if neg then mantissa / 10 ^ e else mantissa * 10 ^ e)))"

text \<open>\<open>parseFloat(str)\<close>: leading white space is skipped, then the longest prefix that is
  a signed decimal literal (or \<open>Infinity\<close>) is read; \<open>NaN\<close> when there is none.\<close>

definition parseFloat :: "string \<Rightarrow> jsnum" where
  "parseFloat str =
     (let s = dropWhile is_space str;
          neg = starts_with s ''-'';
          u = (if starts_with s ''-'' \<or> starts_with s ''+'' then tl s else s)
      in if starts_with u ''Infinity'' then (if neg then NegInfinity else Infinity)
         else (case unsigned_decimal u of
                 None \<Rightarrow> NaN
               | Some v \<Rightarrow> Num (if neg then - v else v)))"

section \<open>FIR names and FIR detection (parseFIRNames, detectCurrentFIR)\<close>

text \<open>The loop of \<open>parseFIRNames\<close> over the lines, carrying \<open>inFIRSection\<close> and the map.\<close>

fun fir_lines :: "string list \<Rightarrow> bool \<Rightarrow> (string \<rightharpoonup> string) \<Rightarrow> (string \<rightharpoonup> string)" where
  "fir_lines [] inFIRSection firNames = firNames"
| "fir_lines (line # rest) inFIRSection firNames =
     (let trimmedLine = trim line
      in if trimmedLine = ''[FIRs]'' then fir_lines rest True firNames
         else if startsWith trimmedLine CHR ''['' \<and> trimmedLine \<noteq> ''[FIRs]''
           then fir_lines rest False firNames
         else if inFIRSection \<and> trimmedLine \<noteq> [] \<and> \<not> startsWith trimmedLine CHR '';'' then
           (case split_on CHR ''|'' trimmedLine of
              firId # firName # _ \<Rightarrow>
                fir_lines rest inFIRSection
                  (if firNames firId = None then firNames(firId \<mapsto> firName) else firNames)
            | _ \<Rightarrow> fir_lines rest inFIRSection firNames)
         else fir_lines rest inFIRSection firNames)"

text \<open>\<open>parseFIRNames\<close>; the argument is the text the fetch delivered, \<open>None\<close> when the
  fetch threw, which the \<open>catch\<close> turns into an empty map.\<close>

definition parseFIRNames :: "string option \<Rightarrow> (string \<rightharpoonup> string)" where
  "parseFIRNames response =
     (case response of
        None \<Rightarrow> Map.empty
      | Some text \<Rightarrow> fir_lines (split_on CHR 0x0A text) False Map.empty)"

text \<open>
  A feature of the boundary collection: its \<open>geometry\<close> (\<open>type\<close> with \<open>coordinates\<close>; any
  type other than the two the code tests is \<open>OtherGeometry\<close>) and the two \<open>properties\<close> read,
  \<open>id\<close> and \<open>oceanic\<close>, \<open>None\<close> when absent. Every feature is taken to carry a \<open>geometry\<close>
  and a \<open>properties\<close> object, as the boundary format has them.
\<close>

datatype geometry = Polygon polygon | MultiPolygon "polygon list" | OtherGeometry string

record feature =
  geometry :: geometry
  prop_id :: "string option"
  prop_oceanic :: "string option"

record fir_match =
  fir_id :: string
  fir_name :: string
  isOceanic :: bool

text \<open>\<open>isMatch\<close>, as the two branches on \<open>feature.geometry.type\<close> set it.\<close>

fun feature_isMatch :: "point \<Rightarrow> feature \<Rightarrow> bool" where
  "feature_isMatch pilotPoint f =
     (case geometry f of
        MultiPolygon coordinates \<Rightarrow> isPointInMultiPolygon pilotPoint coordinates
      | Polygon coordinates \<Rightarrow> isPointInPolygon pilotPoint coordinates
      | OtherGeometry _ \<Rightarrow> False)"

text \<open>The object pushed for a matching feature. \<open>a || b\<close> on strings takes \<open>b\<close> when \<open>a\<close>
  is \<open>undefined\<close> or empty.\<close>

definition fir_of_feature :: "(string \<rightharpoonup> string) \<Rightarrow> feature \<Rightarrow> fir_match" where
  "fir_of_feature firNamesMap f =
     (let firId = (case prop_id f of None \<Rightarrow> ''Unknown FIR''
                   | Some i \<Rightarrow> if i = [] then ''Unknown FIR'' else i);
          firName = (case firNamesMap firId of None \<Rightarrow> firId
                     | Some n \<Rightarrow> if n = [] then firId else n)
      in \<lparr>fir_id = firId, fir_name = firName, isOceanic = (prop_oceanic f = Some ''1'')\<rparr>)"

text \<open>The loop \<open>for (const feature of data.features)\<close>, pushing onto \<open>matchingFIRs\<close>.\<close>

fun collect_matches ::
  "point \<Rightarrow> (string \<rightharpoonup> string) \<Rightarrow> feature list \<Rightarrow> fir_match list \<Rightarrow> fir_match list" where
  "collect_matches pilotPoint firNamesMap [] matchingFIRs = matchingFIRs"
| "collect_matches pilotPoint firNamesMap (f # rest) matchingFIRs =
     collect_matches pilotPoint firNamesMap rest
       (if feature_isMatch pilotPoint f then matchingFIRs @ [fir_of_feature firNamesMap f]
        else matchingFIRs)"

text \<open>
  \<open>detectCurrentFIR\<close>. The two arguments after the pilot are what the two fetches
  delivered: the features of the boundary collection (\<open>None\<close> when the fetch or the JSON
  decoding threw; the \<open>catch\<close> then returns \<open>null\<close>) and the reference text for
  \<open>parseFIRNames\<close>. The result \<open>None\<close> is \<open>null\<close>.
\<close>

definition detectCurrentFIR ::
  "VatsimPilot \<Rightarrow> feature list option \<Rightarrow> string option \<Rightarrow> fir_match option" where
  "detectCurrentFIR pilot boundariesResponse firResponse =
     (case boundariesResponse of
        None \<Rightarrow> None
      | Some features \<Rightarrow>
          (let firNamesMap = parseFIRNames firResponse;
               pilotPoint = (longitude pilot, latitude pilot);
               matchingFIRs = collect_matches pilotPoint firNamesMap features []
           in if length matchingFIRs = 0 then None
              else (let landBasedFIRs = filter (\<lambda>fir. \<not> isOceanic fir) matchingFIRs
                    in if length landBasedFIRs > 0 then Some (hd landBasedFIRs)
                       else Some (hd matchingFIRs))))"

section \<open>Reference data (parseVatspyData, getAirportByIcao)\<close>

record VatspyAirport =
  icao :: string
  name :: string
  airport_latitude :: jsnum
  airport_longitude :: jsnum
  iata :: "string option"
  fir :: string
  isPseudo :: bool

type_synonym airport_map = "string \<rightharpoonup> VatspyAirport"

text \<open>
  One iteration of \<open>for (const line of lines)\<close> on the state of the loop, the flag
  \<open>inAirportsSection\<close> and the map \<open>airports\<close>; a \<open>continue\<close> leaves the state as it is.
\<close>

definition airport_line :: "string \<Rightarrow> bool \<times> airport_map \<Rightarrow> bool \<times> airport_map" where
  "airport_line line st =
     (case st of (inAirportsSection, airports) \<Rightarrow>
        (let trimmedLine = trim line
         in if trimmedLine = [] \<or> startsWith trimmedLine CHR '';'' then st
            else if startsWith trimmedLine CHR ''['' \<and> endsWith trimmedLine CHR '']''
              then (trimmedLine = ''[Airports]'', airports)
            else if \<not> inAirportsSection then st
            else (case split_on CHR ''|'' trimmedLine of
                    p0 # p1 # p2 # p3 # p4 # p5 # p6 # _ \<Rightarrow>
                      (let icao_v = trim p0;
                           name_v = trim p1;
                           latitude_v = parseFloat p2;
                           longitude_v = parseFloat p3;
                           iata_v = or_undefined (trim p4);
                           fir_v = trim p5;
                           isPseudo_v = (trim p6 = ''1'')
                       in if \<not> isPseudo_v \<and> airports icao_v = None \<and> icao_v \<noteq> [] \<and> name_v \<noteq> []
                          then (inAirportsSection,
                                airports(icao_v \<mapsto>
                                  \<lparr>icao = icao_v, name = name_v, airport_latitude = latitude_v,
                                   airport_longitude = longitude_v, iata = iata_v, fir = fir_v,
                                   isPseudo = False\<rparr>))
                          else st)
                  | _ \<Rightarrow> st)))"

text \<open>The body of \<open>parseVatspyData\<close> between the fetch and the assignment to the cache:
  the argument is the text the fetch delivered, \<open>None\<close> when the fetch threw, in which case
  the \<open>catch\<close> leaves the new map empty.\<close>

definition parse_airports :: "string option \<Rightarrow> airport_map" where
  "parse_airports response =
     (case response of
        None \<Rightarrow> Map.empty
      | Some fileContent \<Rightarrow>
          snd (fold airport_line (split_on CHR 0x0A fileContent) (False, Map.empty)))"

text \<open>\<open>parseVatspyData\<close>, run from call to return with nothing in between: the cache
  before, the fetched text, and the result with the cache after.\<close>

definition parseVatspyData ::
  "airport_map option \<Rightarrow> string option \<Rightarrow> airport_map \<times> airport_map option" where
  "parseVatspyData cachedAirports response =
     (case cachedAirports of
        Some cached \<Rightarrow> (cached, cachedAirports)
      | None \<Rightarrow> (let airports = parse_airports response in (airports, Some airports)))"

definition getAirportByIcao ::
  "airport_map option \<Rightarrow> string option \<Rightarrow> string \<Rightarrow> VatspyAirport option \<times> airport_map option" where
  "getAirportByIcao cachedAirports response icao_arg =
     (case parseVatspyData cachedAirports response of
        (airports, cache) \<Rightarrow> (airports (toUpperCase icao_arg), cache))"

section \<open>Concurrent calls of parseVatspyData\<close>

text \<open>
  \<open>parseVatspyData\<close> is an async function, and the runtime runs one piece of code at a
  time: a call runs up to its first \<open>await\<close> without interruption, and runs on, again
  without interruption, when the awaited fetch has delivered. Between the two any other
  call may run. So a call is a task in one of two states: waiting for its fetch, holding
  the map it created with \<open>new Map()\<close>, or returned, with the map it returned. Maps are
  objects with an identity: a map is an address into \<open>heap\<close>. \<open>parses\<close> counts how often the
  loop over the lines has been run. The function awaits twice in a row, the fetch and the
  text of the response; it touches neither the cache nor its map in between, so the two
  count as one.
\<close>

datatype task = Awaiting nat | Returned nat

record store =
  cachedAirports :: "nat option"
  heap :: "airport_map list"
  tasks :: "task list"
  parses :: nat

datatype event = Call | Resume nat "string option"

text \<open>
  \<open>Call\<close>: a new caller enters. With a cache it returns the cached map at once; without
  one it creates its own empty map and waits for the fetch.
  \<open>Resume i response\<close>: the fetch of task \<open>i\<close> has delivered \<open>response\<close>; the task fills
  its map (no loop when the fetch threw), stores it in the cache and returns it.
\<close>

fun step :: "event \<Rightarrow> store \<Rightarrow> store" where
  "step Call s =
     (case cachedAirports s of
        Some a \<Rightarrow> s\<lparr>tasks := tasks s @ [Returned a]\<rparr>
      | None \<Rightarrow> s\<lparr>heap := heap s @ [Map.empty], tasks := tasks s @ [Awaiting (length (heap s))]\<rparr>)"
| "step (Resume i response) s =
     (if i < length (tasks s) then
        (case tasks s ! i of
           Awaiting a \<Rightarrow>
             s\<lparr>cachedAirports := Some a,
               heap := (heap s)[a := parse_airports response],
               tasks := (tasks s)[i := Returned a],
               parses := parses s + (case response of None \<Rightarrow> 0 | Some _ \<Rightarrow> 1)\<rparr>
         | Returned _ \<Rightarrow> s)
      else s)"

definition initial_store :: store where
  "initial_store = \<lparr>cachedAirports = None, heap = [], tasks = [], parses = 0\<rparr>"

text \<open>A run: the events in the order the runtime takes them.\<close>

definition run :: "event list \<Rightarrow> store \<Rightarrow> store" where
  "run events s = fold step events s"

section \<open>Distance and time of arrival (calculateDistance, calculateETA)\<close>

text \<open>\<open>Math.atan2(y, x)\<close>, and \<open>Math.round\<close>, which rounds a half upwards.\<close>

definition atan2 :: "real \<Rightarrow> real \<Rightarrow> real" where
  "atan2 y x =
     (if x > 0 then arctan (y / x)
      else if x < 0 \<and> y \<ge> 0 then arctan (y / x) + pi
      else if x < 0 then arctan (y / x) - pi
      else if y > 0 then pi / 2
      else if y < 0 then - pi / 2
      else 0)"

definition js_round :: "real \<Rightarrow> int" where
  "js_round x = \<lfloor>x + 1 / 2\<rfloor>"

definition calculateDistance :: "real \<Rightarrow> real \<Rightarrow> real \<Rightarrow> real \<Rightarrow> real" where
  "calculateDistance lat1 lon1 lat2 lon2 =
     (let R = 3440.065;
          dLat = (lat2 - lat1) * pi / 180;
          dLon = (lon2 - lon1) * pi / 180;
          a = sin (dLat / 2) * sin (dLat / 2) +
              cos (lat1 * pi / 180) * cos (lat2 * pi / 180) *
              sin (dLon / 2) * sin (dLon / 2);
          c = 2 * atan2 (sqrt a) (sqrt (1 - a))
      in R * c)"

text \<open>
  The duration string of \<open>calculateETA\<close>, from the distance and the groundspeed:
  \<open>timeHours\<close>, \<open>hours\<close>, \<open>minutes\<close> and \<open>durationString\<close>.
\<close>

definition eta_duration :: "real \<Rightarrow> real \<Rightarrow> string" where
  "eta_duration distance_nm groundspeed_kt =
     (let timeHours = distance_nm / groundspeed_kt;
          hours = \<lfloor>timeHours\<rfloor>;
          minutes = js_round ((timeHours - of_int hours) * 60)
      in if hours > 0 then show_int hours @ ''h '' @ show_int minutes @ ''m''
         else show_int minutes @ ''m'')"

text \<open>
  The result object. \<open>arrivalTime\<close> is the \<open>Date\<close>, in milliseconds, that the runtime
  formats into the two strings \<open>etaUTC\<close> and \<open>etaLocal\<close>; the formatting depends on the
  time zone of the host and is left to it.
\<close>

record eta_result =
  duration :: string
  arrivalTime :: jsnum
  distance :: jsnum

text \<open>
  \<open>calculateETA\<close>. \<open>now\<close> is the clock, in milliseconds; the cache and the fetched text are
  those of \<open>parseVatspyData\<close>. The result \<open>None\<close> is \<open>null\<close>. Nothing inside the \<open>try\<close>
  throws, so the \<open>catch\<close> has no branch here. An airport coordinate that is not falsy is a
  finite number or an infinity; with an infinity every number computed from it is \<open>NaN\<close>.
\<close>

definition calculateETA ::
  "real \<Rightarrow> airport_map option \<Rightarrow> string option \<Rightarrow> VatsimPilot
     \<Rightarrow> eta_result option \<times> airport_map option" where
  "calculateETA now cache response pilot =
     (case flight_plan pilot of
        None \<Rightarrow> (None, cache)
      | Some fp \<Rightarrow>
          if arrival fp = [] \<or> groundspeed pilot \<le> 0 then (None, cache)
          else
            (case getAirportByIcao cache response (arrival fp) of
               (None, cache') \<Rightarrow> (None, cache')
             | (Some arrivalAirport, cache') \<Rightarrow>
                 if js_falsy (airport_latitude arrivalAirport)
                    \<or> js_falsy (airport_longitude arrivalAirport) then (None, cache')
                 else
                   (case (airport_latitude arrivalAirport, airport_longitude arrivalAirport) of
                      (Num lat2, Num lon2) \<Rightarrow>
                        (let dist_nm = calculateDistance (latitude pilot) (longitude pilot) lat2 lon2;
                             timeHours = dist_nm / groundspeed pilot
                         in (Some \<lparr>duration = eta_duration dist_nm (groundspeed pilot),
                                   arrivalTime = Num (now + timeHours * 60 * 60 * 1000),
                                   distance = Num (of_int (js_round dist_nm))\<rparr>, cache'))
                    | _ \<Rightarrow>
                        (Some \<lparr>duration = ''NaNm'', arrivalTime = NaN, distance = NaN\<rparr>,
                         cache'))))"

section \<open>Properties of the flight category\<close>

lemma find_filter_same: "find P (filter P xs) = find P xs"
  by (induction xs) auto

lemma find_sorted_min:
  assumes "find P xs = Some c" and "sorted (map f (filter P xs))"
  shows "f c = Min (set (map f (filter P xs)))"
  using assms
proof (induction xs)
  case Nil
  then show ?case by simp
next
  case (Cons x xs)
  show ?case
  proof (cases "P x")
    case True
    with Cons.prems have c: "c = x" and le: "\<forall>y \<in> set (map f (filter P xs)). f x \<le> y"
      by auto
    have "Min (insert (f x) (set (map f (filter P xs)))) = f x"
      using le by (intro Min_eqI) auto
    with True c show ?thesis by simp
  next
    case False
    with Cons show ?thesis by simp
  qed
qed

text \<open>
  C5. The claim: the category follows the four threshold rules on the reported visibility
  and ceiling, the defaults standing in only for a missing field. The code applies the
  default to a reported visibility of 0 as well, so an observation with visibility 0 and no
  cloud layer comes out as VFR, where the first rule (visibility below 1) asks for LIFR.
\<close>

theorem getFlightCategory_zero_visibility_is_VFR:
  "category (getFlightCategory \<lparr>visibility = Some 0, clouds = Some []\<rparr>) = ''VFR''"
  by (simp add: getFlightCategory_def gfc_visibility_def gfc_ceiling_def)

text \<open>
  C6, as the claim states it, fails: with an overcast layer at 5000 ft listed before a
  broken layer at 400 ft the ceiling used is 5000 ft, not the lowest one, and the category
  is VFR.
\<close>

theorem ceiling_not_lowest_counterexample:
  "gfc_ceiling \<lparr>visibility = None,
      clouds = Some [\<lparr>quantity = ''OVC'', height = Some 5000\<rparr>,
                     \<lparr>quantity = ''BKN'', height = Some 400\<rparr>]\<rparr> = 5000
   \<and> category (getFlightCategory \<lparr>visibility = None,
      clouds = Some [\<lparr>quantity = ''OVC'', height = Some 5000\<rparr>,
                     \<lparr>quantity = ''BKN'', height = Some 400\<rparr>]\<rparr>) = ''VFR''
   \<and> gfc_ceiling \<lparr>visibility = None,
      clouds = Some [\<lparr>quantity = ''BKN'', height = Some 400\<rparr>,
                     \<lparr>quantity = ''OVC'', height = Some 5000\<rparr>]\<rparr> = 400"
  by (simp add: getFlightCategory_def gfc_visibility_def gfc_ceiling_def is_bkn_ovc_def)

text \<open>
  C6, amended. When the first broken or overcast layer in list order reports a height other
  than 0, the ceiling is that height. Layers of any other quantity never count: removing
  them leaves the ceiling unchanged. When the broken and overcast layers all carry a
  non-zero height and are listed by ascending height, the first one is the lowest, and the
  ceiling is the minimum of their heights.
\<close>

theorem ceiling_first_bkn_ovc:
  "(find is_bkn_ovc cs = Some c \<and> height c = Some h \<and> h \<noteq> 0 \<longrightarrow>
      gfc_ceiling \<lparr>visibility = v, clouds = Some cs\<rparr> = h)
   \<and> gfc_ceiling \<lparr>visibility = v, clouds = Some (filter is_bkn_ovc cs)\<rparr> =
       gfc_ceiling \<lparr>visibility = v, clouds = Some cs\<rparr>
   \<and> (filter is_bkn_ovc cs \<noteq> []
        \<and> (\<forall>c \<in> set (filter is_bkn_ovc cs). \<exists>h. height c = Some h \<and> h \<noteq> 0)
        \<and> sorted (map (\<lambda>c. the (height c)) (filter is_bkn_ovc cs))
      \<longrightarrow> gfc_ceiling \<lparr>visibility = v, clouds = Some cs\<rparr> =
            Min (set (map (\<lambda>c. the (height c)) (filter is_bkn_ovc cs))))"
proof (intro conjI impI)
  assume "find is_bkn_ovc cs = Some c \<and> height c = Some h \<and> h \<noteq> 0"
  then show "gfc_ceiling \<lparr>visibility = v, clouds = Some cs\<rparr> = h"
    by (simp add: gfc_ceiling_def)
next
  show "gfc_ceiling \<lparr>visibility = v, clouds = Some (filter is_bkn_ovc cs)\<rparr> =
       gfc_ceiling \<lparr>visibility = v, clouds = Some cs\<rparr>"
    by (simp add: gfc_ceiling_def find_filter_same)
next
  assume a: "filter is_bkn_ovc cs \<noteq> []
        \<and> (\<forall>c \<in> set (filter is_bkn_ovc cs). \<exists>h. height c = Some h \<and> h \<noteq> 0)
        \<and> sorted (map (\<lambda>c. the (height c)) (filter is_bkn_ovc cs))"
  then obtain c where c: "find is_bkn_ovc cs = Some c"
    by (cases "find is_bkn_ovc cs") (auto simp: find_None_iff filter_empty_conv)
  then have "c \<in> set (filter is_bkn_ovc cs)"
    by (auto simp: find_Some_iff)
  with a obtain h where h: "height c = Some h" "h \<noteq> 0" by blast
  have "the (height c) = Min (set (map (\<lambda>c. the (height c)) (filter is_bkn_ovc cs)))"
    using c a by (intro find_sorted_min) auto
  with c h show "gfc_ceiling \<lparr>visibility = v, clouds = Some cs\<rparr> =
            Min (set (map (\<lambda>c. the (height c)) (filter is_bkn_ovc cs)))"
    by (simp add: gfc_ceiling_def)
qed

text \<open>Four layers by ascending height, the second and the fourth of them broken or
  overcast: the ceiling is the 400 ft of the second, which is also the lowest of the two.\<close>

theorem ceiling_first_bkn_ovc_witness:
  "find is_bkn_ovc
     [\<lparr>quantity = ''FEW'', height = Some 200\<rparr>, \<lparr>quantity = ''BKN'', height = Some 400\<rparr>,
      \<lparr>quantity = ''SCT'', height = Some 900\<rparr>, \<lparr>quantity = ''OVC'', height = Some 5000\<rparr>]
     = Some \<lparr>quantity = ''BKN'', height = Some 400\<rparr>
   \<and> gfc_ceiling \<lparr>visibility = None,
      clouds = Some [\<lparr>quantity = ''FEW'', height = Some 200\<rparr>,
                     \<lparr>quantity = ''BKN'', height = Some 400\<rparr>,
                     \<lparr>quantity = ''SCT'', height = Some 900\<rparr>,
                     \<lparr>quantity = ''OVC'', height = Some 5000\<rparr>]\<rparr> = 400
   \<and> gfc_ceiling \<lparr>visibility = None,
      clouds = Some [\<lparr>quantity = ''FEW'', height = Some 200\<rparr>,
                     \<lparr>quantity = ''BKN'', height = Some 400\<rparr>,
                     \<lparr>quantity = ''SCT'', height = Some 900\<rparr>,
                     \<lparr>quantity = ''OVC'', height = Some 5000\<rparr>]\<rparr> =
       Min (set (map (\<lambda>c. the (height c)) (filter is_bkn_ovc
        [\<lparr>quantity = ''FEW'', height = Some 200\<rparr>,
         \<lparr>quantity = ''BKN'', height = Some 400\<rparr>,
         \<lparr>quantity = ''SCT'', height = Some 900\<rparr>,
         \<lparr>quantity = ''OVC'', height = Some 5000\<rparr>])))"
proof -
  let ?cs = "[\<lparr>quantity = ''FEW'', height = Some 200\<rparr>, \<lparr>quantity = ''BKN'', height = Some 400\<rparr>,
      \<lparr>quantity = ''SCT'', height = Some 900\<rparr>, \<lparr>quantity = ''OVC'', height = Some (5000::real)\<rparr>]"
  note w = ceiling_first_bkn_ovc
    [where cs = ?cs and c = "\<lparr>quantity = ''BKN'', height = Some 400\<rparr>" and h = 400
       and v = None]
  have f: "find is_bkn_ovc ?cs = Some \<lparr>quantity = ''BKN'', height = Some 400\<rparr>"
    by (simp add: is_bkn_ovc_def)
  then have h1: "find is_bkn_ovc ?cs = Some \<lparr>quantity = ''BKN'', height = Some 400\<rparr>
      \<and> height \<lparr>quantity = ''BKN'', height = Some 400\<rparr> = Some 400 \<and> (400::real) \<noteq> 0"
    by simp
  have w1: "gfc_ceiling \<lparr>visibility = None, clouds = Some ?cs\<rparr> = 400"
    by (rule w [THEN conjunct1, rule_format, OF h1])
  have h3: "filter is_bkn_ovc ?cs \<noteq> []
        \<and> (\<forall>c \<in> set (filter is_bkn_ovc ?cs). \<exists>h. height c = Some h \<and> h \<noteq> 0)
        \<and> sorted (map (\<lambda>c. the (height c)) (filter is_bkn_ovc ?cs))"
    by (simp add: is_bkn_ovc_def)
  have w3: "gfc_ceiling \<lparr>visibility = None, clouds = Some ?cs\<rparr> =
      Min (set (map (\<lambda>c. the (height c)) (filter is_bkn_ovc ?cs)))"
    by (rule w [THEN conjunct2, THEN conjunct2, rule_format, OF h3])
  show ?thesis
    by (intro conjI f w1 w3)
qed

text \<open>
  C10. A reported visibility of exactly 0 is replaced by the default of 10, as a missing
  one is: the classifier cannot tell the two observations apart, and with no broken or
  overcast layer the category is VFR. In the same way a height of exactly 0 on the broken
  or overcast layer that \<open>find\<close> selects is replaced by 10000, as if the list had no such
  layer.
\<close>

theorem zero_is_treated_as_missing:
  "gfc_visibility \<lparr>visibility = Some 0, clouds = cl\<rparr> = 10
   \<and> getFlightCategory \<lparr>visibility = Some 0, clouds = cl\<rparr> =
       getFlightCategory \<lparr>visibility = None, clouds = cl\<rparr>
   \<and> (find is_bkn_ovc cs = None \<longrightarrow>
        category (getFlightCategory \<lparr>visibility = Some 0, clouds = Some cs\<rparr>) = ''VFR'')
   \<and> (find is_bkn_ovc cs = Some c \<and> height c = Some 0 \<longrightarrow>
        gfc_ceiling \<lparr>visibility = v, clouds = Some cs\<rparr> = 10000
        \<and> getFlightCategory \<lparr>visibility = v, clouds = Some cs\<rparr> =
            getFlightCategory \<lparr>visibility = v, clouds = Some []\<rparr>)"
  by (simp add: getFlightCategory_def gfc_visibility_def gfc_ceiling_def)

theorem zero_is_treated_as_missing_witness:
  "find is_bkn_ovc [\<lparr>quantity = ''FEW'', height = Some 300\<rparr>] = None
   \<and> category (getFlightCategory
        \<lparr>visibility = Some 0, clouds = Some [\<lparr>quantity = ''FEW'', height = Some 300\<rparr>]\<rparr>) = ''VFR''
   \<and> find is_bkn_ovc [\<lparr>quantity = ''SCT'', height = Some 100\<rparr>, \<lparr>quantity = ''OVC'', height = Some 0\<rparr>]
       = Some \<lparr>quantity = ''OVC'', height = Some 0\<rparr>
   \<and> gfc_ceiling \<lparr>visibility = Some 6,
        clouds = Some [\<lparr>quantity = ''SCT'', height = Some 100\<rparr>, \<lparr>quantity = ''OVC'', height = Some 0\<rparr>]\<rparr>
       = 10000"
  using zero_is_treated_as_missing [of None "[\<lparr>quantity = ''FEW'', height = Some 300\<rparr>]"]
    zero_is_treated_as_missing [of None
      "[\<lparr>quantity = ''SCT'', height = Some 100\<rparr>, \<lparr>quantity = ''OVC'', height = Some 0\<rparr>]"
      "\<lparr>quantity = ''OVC'', height = Some 0\<rparr>" "Some 6"]
  by (simp add: is_bkn_ovc_def)

section \<open>Properties of the point-in-polygon test\<close>

lemma edge_crosses_same: "\<not> edge_crosses pt p p"
  by (simp add: edge_crosses_def split: prod.splits)

lemma ring_loop_flip: "ring_loop pt p_j xs (\<not> b) = (\<not> ring_loop pt p_j xs b)"
  by (induction xs arbitrary: p_j b) auto

lemma ring_loop_append:
  "ring_loop pt p_j (xs @ ys) b = ring_loop pt (last (p_j # xs)) ys (ring_loop pt p_j xs b)"
  by (induction xs arbitrary: p_j b) auto

text \<open>Closing a ring explicitly adds one edge of length zero, which is never crossed, and
  moves the closing edge from the first iteration to the last.\<close>

lemma ring_inside_closed: "ring_inside pt (p # ps @ [p]) = ring_inside pt (p # ps)"
proof -
  let ?X = "ring_loop pt p ps False"
  let ?e = "edge_crosses pt p (last (p # ps))"
  have "ring_inside pt (p # ps @ [p]) = ring_loop pt p (ps @ [p]) False"
    by (simp add: ring_inside_def edge_crosses_same)
  also have "\<dots> = (if ?e then \<not> ?X else ?X)"
    by (simp add: ring_loop_append)
  finally have l: "ring_inside pt (p # ps @ [p]) = (if ?e then \<not> ?X else ?X)" .
  have "ring_inside pt (p # ps) = ring_loop pt p ps (if ?e then \<not> False else False)"
    by (simp add: ring_inside_def)
  also have "\<dots> = (if ?e then \<not> ?X else ?X)"
    using ring_loop_flip [of pt p ps False] by simp
  finally show ?thesis using l by simp
qed

lemma polygon_loop_holes:
  "0 < n \<Longrightarrow> polygon_loop pt rs n = (\<forall>r \<in> set rs. \<not> ring_inside pt r)"
  by (induction rs arbitrary: n) (auto simp: Let_def)

text \<open>
  C2. The claim: a point is inside a polygon exactly when it is inside ring 0 and inside
  no later ring. For a polygon with no ring the loop over the rings never runs and the
  function returns \<open>true\<close> for every point, although there is no exterior ring for the
  point to be inside of, and although the comments in the loop ask for the point to be
  inside the exterior ring. The neighbouring degenerate inputs give \<open>false\<close>: a polygon
  whose only ring is empty, and a multi-polygon with no polygon.
\<close>

theorem empty_polygon_contains_every_point:
  "isPointInPolygon pt [] \<and> \<not> isPointInPolygon pt [[]] \<and> \<not> isPointInMultiPolygon pt []"
  by (simp add: isPointInPolygon_def isPointInMultiPolygon_def ring_inside_def)

text \<open>
  With at least one ring the function does what the comments say. The point is inside the
  polygon exactly when the crossing test puts it inside the first ring and inside none of
  the later rings; it is inside a multi-polygon exactly when it is inside one of its
  polygons; and the crossing test does not depend on the ring being closed: a ring and the
  same ring with its first position repeated at the end give the same answer.
\<close>

theorem point_in_polygon_rings:
  "isPointInPolygon pt (exterior # holes) =
     (ring_inside pt exterior \<and> (\<forall>h \<in> set holes. \<not> ring_inside pt h))
   \<and> isPointInMultiPolygon pt multiPolygon =
       (\<exists>polygon \<in> set multiPolygon. isPointInPolygon pt polygon)
   \<and> ring_inside pt (p # ps @ [p]) = ring_inside pt (p # ps)"
proof (intro conjI)
  show "isPointInPolygon pt (exterior # holes) =
     (ring_inside pt exterior \<and> (\<forall>h \<in> set holes. \<not> ring_inside pt h))"
    by (auto simp: isPointInPolygon_def Let_def polygon_loop_holes)
  show "isPointInMultiPolygon pt multiPolygon =
       (\<exists>polygon \<in> set multiPolygon. isPointInPolygon pt polygon)"
    by (simp add: isPointInMultiPolygon_def list_ex_iff)
  show "ring_inside pt (p # ps @ [p]) = ring_inside pt (p # ps)"
    by (rule ring_inside_closed)
qed

text \<open>A square from 0 to 10 with a square hole from 4 to 6, neither ring closed: (5, 5)
  is in the hole, (2, 5) between hole and boundary, (12, 5) outside.\<close>

theorem point_in_polygon_rings_witness:
  "\<not> isPointInPolygon (5, 5) [[(0, 0), (10, 0), (10, 10), (0, 10)], [(4, 4), (6, 4), (6, 6), (4, 6)]]
   \<and> ring_inside (5, 5) [(4, 4), (6, 4), (6, 6), (4, 6)]
   \<and> ring_inside (5, 5) [(4, 4), (6, 4), (6, 6), (4, 6), (4, 4)]
   \<and> isPointInPolygon (2, 5) [[(0, 0), (10, 0), (10, 10), (0, 10)], [(4, 4), (6, 4), (6, 6), (4, 6)]]
   \<and> \<not> isPointInPolygon (12, 5) [[(0, 0), (10, 0), (10, 10), (0, 10)], [(4, 4), (6, 4), (6, 6), (4, 6)]]
   \<and> isPointInMultiPolygon (2, 5)
       [[[(20, 20), (30, 20), (30, 30)]],
        [[(0, 0), (10, 0), (10, 10), (0, 10)], [(4, 4), (6, 4), (6, 6), (4, 6)]]]"
  using point_in_polygon_rings [of "(5, 5)" "[(0, 0), (10, 0), (10, 10), (0, 10)]"
      "[[(4, 4), (6, 4), (6, 6), (4, 6)]]" "[]" "(4, 4)" "[(6, 4), (6, 6), (4, 6)]"]
    point_in_polygon_rings [of "(2, 5)" "[(0, 0), (10, 0), (10, 10), (0, 10)]"
      "[[(4, 4), (6, 4), (6, 6), (4, 6)]]"
      "[[[(20, 20), (30, 20), (30, 30)]],
        [[(0, 0), (10, 0), (10, 10), (0, 10)], [(4, 4), (6, 4), (6, 6), (4, 6)]]]"
      "(0, 0)" "[]"]
    point_in_polygon_rings [of "(12, 5)" "[(0, 0), (10, 0), (10, 10), (0, 10)]"
      "[[(4, 4), (6, 4), (6, 6), (4, 6)]]" "[]" "(0, 0)" "[]"]
  by (simp add: ring_inside_def edge_crosses_def)

section \<open>Properties of the FIR detection\<close>

lemma collect_matches_eq:
  "collect_matches pt names fs acc =
     acc @ map (fir_of_feature names) (filter (feature_isMatch pt) fs)"
  by (induction fs arbitrary: acc) auto

lemma hd_filter_find: "filter P xs \<noteq> [] \<Longrightarrow> Some (hd (filter P xs)) = find P xs"
  by (induction xs) auto

lemma find_None_filter: "filter P xs = [] \<Longrightarrow> find P xs = None"
  by (induction xs) (auto split: if_splits)

lemma isOceanic_fir_of_feature:
  "isOceanic (fir_of_feature names f) = (prop_oceanic f = Some ''1'')"
  by (simp add: fir_of_feature_def Let_def)

lemma land_filter:
  "filter (\<lambda>fir. \<not> isOceanic fir) (map (fir_of_feature names) (filter P fs)) =
     map (fir_of_feature names) (filter (\<lambda>f. P f \<and> prop_oceanic f \<noteq> Some ''1'') fs)"
  by (induction fs) (auto simp: isOceanic_fir_of_feature)

lemma detectCurrentFIR_find:
  "detectCurrentFIR pilot (Some fs) resp =
     (case find (\<lambda>f. feature_isMatch (longitude pilot, latitude pilot) f
                      \<and> prop_oceanic f \<noteq> Some ''1'') fs of
        Some f \<Rightarrow> Some (fir_of_feature (parseFIRNames resp) f)
      | None \<Rightarrow> map_option (fir_of_feature (parseFIRNames resp))
                  (find (feature_isMatch (longitude pilot, latitude pilot)) fs))"
proof -
  let ?pt = "(longitude pilot, latitude pilot)"
  let ?L = "\<lambda>f. feature_isMatch ?pt f \<and> prop_oceanic f \<noteq> Some ''1''"
  show ?thesis
  proof (cases "filter (feature_isMatch ?pt) fs = []")
    case True
    then have "filter ?L fs = []"
      by (auto simp: filter_empty_conv)
    with True show ?thesis
      by (simp add: detectCurrentFIR_def collect_matches_eq find_None_filter
          del: feature_isMatch.simps)
  next
    case ne: False
    show ?thesis
    proof (cases "filter ?L fs = []")
      case True
      with ne hd_filter_find [of "feature_isMatch ?pt" fs, symmetric] show ?thesis
        by (simp add: detectCurrentFIR_def collect_matches_eq land_filter find_None_filter
            hd_map del: feature_isMatch.simps)
    next
      case False
      with ne hd_filter_find [of ?L fs, symmetric] show ?thesis
        by (simp add: detectCurrentFIR_def collect_matches_eq land_filter hd_map
            del: feature_isMatch.simps)
    qed
  qed
qed

text \<open>
  C1. The loop visits every feature and \<open>matchingFIRs\<close> holds one entry for each feature
  that contains the pilot's position, in the order of the input. If one of the containing
  features is land-based (its \<open>oceanic\<close> property is not the string 1), the result is the
  entry of the first such feature; if every containing feature is oceanic, it is the entry
  of the first containing feature; if no feature contains the position, it is \<open>null\<close>.
\<close>

theorem detectCurrentFIR_tie_break:
  "collect_matches (longitude pilot, latitude pilot) names fs [] =
     map (fir_of_feature names)
       (filter (feature_isMatch (longitude pilot, latitude pilot)) fs)
   \<and> ((\<exists>f \<in> set fs. feature_isMatch (longitude pilot, latitude pilot) f
                     \<and> prop_oceanic f \<noteq> Some ''1'') \<longrightarrow>
        detectCurrentFIR pilot (Some fs) resp =
          map_option (fir_of_feature (parseFIRNames resp))
            (find (\<lambda>f. feature_isMatch (longitude pilot, latitude pilot) f
                        \<and> prop_oceanic f \<noteq> Some ''1'') fs))
   \<and> ((\<forall>f \<in> set fs. feature_isMatch (longitude pilot, latitude pilot) f
                     \<longrightarrow> prop_oceanic f = Some ''1'') \<longrightarrow>
        detectCurrentFIR pilot (Some fs) resp =
          map_option (fir_of_feature (parseFIRNames resp))
            (find (feature_isMatch (longitude pilot, latitude pilot)) fs))
   \<and> ((\<forall>f \<in> set fs. \<not> feature_isMatch (longitude pilot, latitude pilot) f) \<longrightarrow>
        detectCurrentFIR pilot (Some fs) resp = None)"
proof (intro conjI impI)
  let ?pt = "(longitude pilot, latitude pilot)"
  let ?L = "\<lambda>f. feature_isMatch ?pt f \<and> prop_oceanic f \<noteq> Some ''1''"
  show "collect_matches ?pt names fs [] =
      map (fir_of_feature names) (filter (feature_isMatch ?pt) fs)"
    by (simp add: collect_matches_eq)
  {
    assume "\<exists>f \<in> set fs. ?L f"
    then obtain f where "find ?L fs = Some f"
      by (cases "find ?L fs") (auto simp: find_None_iff)
    then show "detectCurrentFIR pilot (Some fs) resp =
          map_option (fir_of_feature (parseFIRNames resp)) (find ?L fs)"
      by (simp add: detectCurrentFIR_find)
  }
  {
    assume "\<forall>f \<in> set fs. feature_isMatch ?pt f \<longrightarrow> prop_oceanic f = Some ''1''"
    then have "find ?L fs = None"
      by (auto simp: find_None_iff)
    then show "detectCurrentFIR pilot (Some fs) resp =
          map_option (fir_of_feature (parseFIRNames resp)) (find (feature_isMatch ?pt) fs)"
      by (simp add: detectCurrentFIR_find)
  }
  {
    assume "\<forall>f \<in> set fs. \<not> feature_isMatch ?pt f"
    then have "find ?L fs = None" "find (feature_isMatch ?pt) fs = None"
      by (auto simp: find_None_iff)
    then show "detectCurrentFIR pilot (Some fs) resp = None"
      by (simp add: detectCurrentFIR_find)
  }
qed

text \<open>
  Three features around the position (5, 5): an oceanic square, a second oceanic square and
  a land-based multi-polygon whose second part contains the position. With all three the
  land-based one wins although it comes last; with the two oceanic ones the first wins; at
  (50, 50) nothing matches.
\<close>

theorem detectCurrentFIR_tie_break_witness:
  "detectCurrentFIR \<lparr>latitude = 5, longitude = 5, groundspeed = 450, flight_plan = None\<rparr>
     (Some [\<lparr>geometry = Polygon [[(0, 0), (10, 0), (10, 10), (0, 10)]],
              prop_id = Some ''KZAK'', prop_oceanic = Some ''1''\<rparr>,
            \<lparr>geometry = Polygon [[(-5, -5), (15, -5), (15, 15), (-5, 15)]],
              prop_id = Some ''NZZO'', prop_oceanic = Some ''1''\<rparr>,
            \<lparr>geometry = MultiPolygon [[[(20, 20), (21, 20), (21, 21)]],
                                       [[(1, 1), (9, 1), (9, 9), (1, 9), (1, 1)]]],
              prop_id = Some ''KZOA'', prop_oceanic = Some ''0''\<rparr>])
     (Some (''[FIRs]'' @ CHR 0x0A # ''KZOA|Oakland Center''))
     = Some \<lparr>fir_id = ''KZOA'', fir_name = ''Oakland Center'', isOceanic = False\<rparr>
   \<and> detectCurrentFIR \<lparr>latitude = 5, longitude = 5, groundspeed = 450, flight_plan = None\<rparr>
     (Some [\<lparr>geometry = Polygon [[(0, 0), (10, 0), (10, 10), (0, 10)]],
              prop_id = Some ''KZAK'', prop_oceanic = Some ''1''\<rparr>,
            \<lparr>geometry = Polygon [[(-5, -5), (15, -5), (15, 15), (-5, 15)]],
              prop_id = Some ''NZZO'', prop_oceanic = Some ''1''\<rparr>])
     None
     = Some \<lparr>fir_id = ''KZAK'', fir_name = ''KZAK'', isOceanic = True\<rparr>
   \<and> detectCurrentFIR \<lparr>latitude = 50, longitude = 50, groundspeed = 450, flight_plan = None\<rparr>
     (Some [\<lparr>geometry = Polygon [[(0, 0), (10, 0), (10, 10), (0, 10)]],
              prop_id = Some ''KZAK'', prop_oceanic = Some ''1''\<rparr>,
            \<lparr>geometry = Polygon [[(-5, -5), (15, -5), (15, 15), (-5, 15)]],
              prop_id = Some ''NZZO'', prop_oceanic = Some ''1''\<rparr>])
     None
     = None"
  using detectCurrentFIR_tie_break [of "\<lparr>latitude = 5, longitude = 5, groundspeed = 450, flight_plan = None\<rparr>" Map.empty
      "[\<lparr>geometry = Polygon [[(0, 0), (10, 0), (10, 10), (0, 10)]],
              prop_id = Some ''KZAK'', prop_oceanic = Some ''1''\<rparr>,
            \<lparr>geometry = Polygon [[(-5, -5), (15, -5), (15, 15), (-5, 15)]],
              prop_id = Some ''NZZO'', prop_oceanic = Some ''1''\<rparr>,
            \<lparr>geometry = MultiPolygon [[[(20, 20), (21, 20), (21, 21)]],
                                       [[(1, 1), (9, 1), (9, 9), (1, 9), (1, 1)]]],
              prop_id = Some ''KZOA'', prop_oceanic = Some ''0''\<rparr>]"
      "Some (''[FIRs]'' @ CHR 0x0A # ''KZOA|Oakland Center'')"]
    detectCurrentFIR_tie_break [of "\<lparr>latitude = 5, longitude = 5, groundspeed = 450, flight_plan = None\<rparr>" Map.empty
      "[\<lparr>geometry = Polygon [[(0, 0), (10, 0), (10, 10), (0, 10)]],
              prop_id = Some ''KZAK'', prop_oceanic = Some ''1''\<rparr>,
            \<lparr>geometry = Polygon [[(-5, -5), (15, -5), (15, 15), (-5, 15)]],
              prop_id = Some ''NZZO'', prop_oceanic = Some ''1''\<rparr>]"
      None]
    detectCurrentFIR_tie_break [of "\<lparr>latitude = 50, longitude = 50, groundspeed = 450, flight_plan = None\<rparr>" Map.empty
      "[\<lparr>geometry = Polygon [[(0, 0), (10, 0), (10, 10), (0, 10)]],
              prop_id = Some ''KZAK'', prop_oceanic = Some ''1''\<rparr>,
            \<lparr>geometry = Polygon [[(-5, -5), (15, -5), (15, 15), (-5, 15)]],
              prop_id = Some ''NZZO'', prop_oceanic = Some ''1''\<rparr>]"
      None]
  by (simp add: isPointInPolygon_def isPointInMultiPolygon_def ring_inside_def
      edge_crosses_def fir_of_feature_def parseFIRNames_def trim_def is_space_def
      startsWith_def Let_def)

section \<open>Properties of the reference-data parser\<close>

lemma airport_line_admit:
  assumes "snd (airport_line line (inSec, m)) \<noteq> m"
  shows "\<exists>p0 p1 p2 p3 p4 p5 p6 ps.
           split_on CHR ''|'' (trim line) = p0 # p1 # p2 # p3 # p4 # p5 # p6 # ps
           \<and> inSec \<and> trim p6 \<noteq> ''1'' \<and> trim p0 \<noteq> [] \<and> trim p1 \<noteq> [] \<and> m (trim p0) = None
           \<and> snd (airport_line line (inSec, m)) =
               m(trim p0 \<mapsto> \<lparr>icao = trim p0, name = trim p1, airport_latitude = parseFloat p2,
                   airport_longitude = parseFloat p3, iata = or_undefined (trim p4),
                   fir = trim p5, isPseudo = False\<rparr>)"
  using assms by (auto simp: airport_line_def Let_def split: if_splits list.splits)

lemma airport_line_keeps:
  "m k = Some a \<Longrightarrow> snd (airport_line line (inSec, m)) k = Some a"
  by (auto simp: airport_line_def Let_def split: list.splits)

lemma fold_airport_line_keeps:
  "m k = Some a \<Longrightarrow> snd (fold airport_line lines (inSec, m)) k = Some a"
proof (induction lines arbitrary: inSec m)
  case Nil
  then show ?case by simp
next
  case (Cons l ls)
  obtain inSec' m' where st: "airport_line l (inSec, m) = (inSec', m')"
    by (cases "airport_line l (inSec, m)")
  with airport_line_keeps [of m k a l inSec] Cons.prems have "m' k = Some a" by simp
  then have "snd (fold airport_line ls (inSec', m')) k = Some a"
    by (rule Cons.IH)
  with st show ?case by simp
qed

text \<open>Every stored record is a real airport filed under its own, non-empty code, with a
  non-empty name; one iteration keeps this, and so does the loop.\<close>

lemma airport_line_inv:
  assumes "\<And>k a. m k = Some a \<Longrightarrow> \<not> isPseudo a \<and> icao a = k \<and> k \<noteq> [] \<and> name a \<noteq> []"
    and "snd (airport_line line (inSec, m)) k = Some a"
  shows "\<not> isPseudo a \<and> icao a = k \<and> k \<noteq> [] \<and> name a \<noteq> []"
proof (cases "snd (airport_line line (inSec, m)) = m")
  case True
  with assms show ?thesis by simp
next
  case False
  from airport_line_admit [OF False] obtain p0 p1 p2 p3 p4 p5 where
    ne: "trim p0 \<noteq> []" "trim p1 \<noteq> []" and
    eq: "snd (airport_line line (inSec, m)) =
               m(trim p0 \<mapsto> \<lparr>icao = trim p0, name = trim p1, airport_latitude = parseFloat p2,
                   airport_longitude = parseFloat p3, iata = or_undefined (trim p4),
                   fir = trim p5, isPseudo = False\<rparr>)"
    by blast
  show ?thesis
  proof (cases "k = trim p0")
    case True
    with assms(2) eq ne show ?thesis by auto
  next
    case False
    with assms(2) eq have "m k = Some a" by simp
    then show ?thesis by (rule assms(1))
  qed
qed

lemma fold_airport_line_inv:
  assumes "\<And>k a. m k = Some a \<Longrightarrow> \<not> isPseudo a \<and> icao a = k \<and> k \<noteq> [] \<and> name a \<noteq> []"
    and "snd (fold airport_line lines (inSec, m)) k = Some a"
  shows "\<not> isPseudo a \<and> icao a = k \<and> k \<noteq> [] \<and> name a \<noteq> []"
  using assms
proof (induction lines arbitrary: inSec m)
  case Nil
  then show ?case by simp
next
  case (Cons l ls)
  obtain inSec' m' where st: "airport_line l (inSec, m) = (inSec', m')"
    by (cases "airport_line l (inSec, m)")
  have inv: "\<And>k a. m' k = Some a \<Longrightarrow> \<not> isPseudo a \<and> icao a = k \<and> k \<noteq> [] \<and> name a \<noteq> []"
    using airport_line_inv [of m l inSec] Cons.prems(1) st by simp
  from Cons.prems(2) st have "snd (fold airport_line ls (inSec', m')) k = Some a" by simp
  from Cons.IH [OF inv this] show ?case .
qed

lemma parse_airports_inv:
  "parse_airports response k = Some a \<Longrightarrow>
     \<not> isPseudo a \<and> icao a = k \<and> k \<noteq> [] \<and> name a \<noteq> []"
proof (cases response)
  case None
  assume "parse_airports response k = Some a"
  with None show ?thesis by (simp add: parse_airports_def)
next
  case (Some fileContent)
  assume "parse_airports response k = Some a"
  with Some have
    "snd (fold airport_line (split_on CHR 0x0A fileContent) (False, Map.empty)) k = Some a"
    by (simp add: parse_airports_def)
  then show ?thesis
    by (rule fold_airport_line_inv [rotated]) simp
qed

lemma airport_line_stores:
  "split_on CHR ''|'' (trim line) = p0 # p1 # p2 # p3 # p4 # p5 # p6 # ps \<Longrightarrow>
   \<not> startsWith (trim line) CHR '';'' \<Longrightarrow>
   \<not> (startsWith (trim line) CHR ''['' \<and> endsWith (trim line) CHR '']'') \<Longrightarrow>
   trim p6 \<noteq> ''1'' \<Longrightarrow> trim p0 \<noteq> [] \<Longrightarrow> trim p1 \<noteq> [] \<Longrightarrow> m (trim p0) = None \<Longrightarrow>
   airport_line line (True, m) =
     (True, m(trim p0 \<mapsto> \<lparr>icao = trim p0, name = trim p1, airport_latitude = parseFloat p2,
                   airport_longitude = parseFloat p3, iata = or_undefined (trim p4),
                   fir = trim p5, isPseudo = False\<rparr>))"
  by (auto simp: airport_line_def Let_def)

lemmas parser_eval =
  getAirportByIcao_def parseVatspyData_def parse_airports_def airport_line_def
  toUpperCase_def or_undefined_def trim_def startsWith_def endsWith_def is_space_def
  parseFloat_def unsigned_decimal_def exponent_part_def starts_with_def is_digit_def Let_def

text \<open>
  C3, as the claim states it, fails in one case: when the first line for a code that is not
  pseudo has an empty name, that line is not admitted, and the stored record carries the
  name of a later line.
\<close>

theorem first_line_without_name_counterexample:
  "split_on CHR ''|'' ''KJFK||1|2|JFK|KZNY|0'' =
     [''KJFK'', [], ''1'', ''2'', ''JFK'', ''KZNY'', ''0'']
   \<and> map_option name
        (parse_airports
           (Some (''[Airports]'' @ CHR 0x0A # ''KJFK||1|2|JFK|KZNY|0'' @ CHR 0x0A #
                  ''KJFK|Second|3|4|JFK|KZNY|0''))
           ''KJFK'') = Some ''Second''"
  by (simp add: parser_eval)

text \<open>
  C3, amended. An iteration of the loop changes the map only for a line of the airports
  section with at least seven fields whose pseudo flag is not 1, whose code and name are not
  empty and whose code is not yet in the map; and every such line is stored: its record,
  with its name, goes into the map under its code and is still there after any lines that
  follow. A record once stored stays as it is whatever lines follow. So of several lines
  with one code, the first one that is not pseudo and has a name provides the stored name.
  A line whose pseudo flag is 1 never changes the map, and every record a lookup returns is
  a record of a line that was not pseudo, filed under the code that was looked up.
\<close>

theorem parser_admits_first_real_airport:
  "(snd (airport_line line (inSec, m)) \<noteq> m \<longrightarrow>
      (\<exists>p0 p1 p2 p3 p4 p5 p6 ps.
          split_on CHR ''|'' (trim line) = p0 # p1 # p2 # p3 # p4 # p5 # p6 # ps
          \<and> inSec \<and> trim p6 \<noteq> ''1'' \<and> trim p0 \<noteq> [] \<and> trim p1 \<noteq> [] \<and> m (trim p0) = None
          \<and> map_option name (snd (airport_line line (inSec, m)) (trim p0)) = Some (trim p1)))
   \<and> (split_on CHR ''|'' (trim line) = q0 # q1 # q2 # q3 # q4 # q5 # q6 # qs
        \<and> \<not> startsWith (trim line) CHR '';''
        \<and> \<not> (startsWith (trim line) CHR ''['' \<and> endsWith (trim line) CHR '']'')
        \<and> trim q6 \<noteq> ''1'' \<and> trim q0 \<noteq> [] \<and> trim q1 \<noteq> [] \<and> m (trim q0) = None
        \<longrightarrow>
        airport_line line (True, m) =
          (True, m(trim q0 \<mapsto> \<lparr>icao = trim q0, name = trim q1,
                    airport_latitude = parseFloat q2, airport_longitude = parseFloat q3,
                    iata = or_undefined (trim q4), fir = trim q5, isPseudo = False\<rparr>))
        \<and> snd (fold airport_line (line # lines) (True, m)) (trim q0) =
            Some \<lparr>icao = trim q0, name = trim q1,
                   airport_latitude = parseFloat q2, airport_longitude = parseFloat q3,
                   iata = or_undefined (trim q4), fir = trim q5, isPseudo = False\<rparr>)
   \<and> (m k = Some a \<longrightarrow> snd (fold airport_line lines (inSec, m)) k = Some a)
   \<and> (split_on CHR ''|'' (trim line) = u0 # u1 # u2 # u3 # u4 # u5 # u6 # us \<and> trim u6 = ''1''
        \<longrightarrow> snd (airport_line line (inSec, m)) = m)
   \<and> (fst (getAirportByIcao None response code) = Some b \<longrightarrow>
        \<not> isPseudo b \<and> icao b = toUpperCase code \<and> name b \<noteq> [])"
proof -
  have c1: "snd (airport_line line (inSec, m)) \<noteq> m \<longrightarrow>
      (\<exists>p0 p1 p2 p3 p4 p5 p6 ps.
          split_on CHR ''|'' (trim line) = p0 # p1 # p2 # p3 # p4 # p5 # p6 # ps
          \<and> inSec \<and> trim p6 \<noteq> ''1'' \<and> trim p0 \<noteq> [] \<and> trim p1 \<noteq> [] \<and> m (trim p0) = None
          \<and> map_option name (snd (airport_line line (inSec, m)) (trim p0)) = Some (trim p1))"
  proof
    assume "snd (airport_line line (inSec, m)) \<noteq> m"
    from airport_line_admit [OF this] obtain p0 p1 p2 p3 p4 p5 p6 ps where
      "split_on CHR ''|'' (trim line) = p0 # p1 # p2 # p3 # p4 # p5 # p6 # ps"
      "inSec" "trim p6 \<noteq> ''1''" "trim p0 \<noteq> []" "trim p1 \<noteq> []" "m (trim p0) = None"
      "snd (airport_line line (inSec, m)) =
               m(trim p0 \<mapsto> \<lparr>icao = trim p0, name = trim p1, airport_latitude = parseFloat p2,
                   airport_longitude = parseFloat p3, iata = or_undefined (trim p4),
                   fir = trim p5, isPseudo = False\<rparr>)"
      by blast
    then show "\<exists>p0 p1 p2 p3 p4 p5 p6 ps.
          split_on CHR ''|'' (trim line) = p0 # p1 # p2 # p3 # p4 # p5 # p6 # ps
          \<and> inSec \<and> trim p6 \<noteq> ''1'' \<and> trim p0 \<noteq> [] \<and> trim p1 \<noteq> [] \<and> m (trim p0) = None
          \<and> map_option name (snd (airport_line line (inSec, m)) (trim p0)) = Some (trim p1)"
      by - (rule exI [of _ p0], rule exI [of _ p1], rule exI [of _ p2], rule exI [of _ p3],
          rule exI [of _ p4], rule exI [of _ p5], rule exI [of _ p6], rule exI [of _ ps],
          simp)
  qed
  let ?r = "\<lparr>icao = trim q0, name = trim q1,
                    airport_latitude = parseFloat q2, airport_longitude = parseFloat q3,
                    iata = or_undefined (trim q4), fir = trim q5, isPseudo = False\<rparr>"
  have c_if: "split_on CHR ''|'' (trim line) = q0 # q1 # q2 # q3 # q4 # q5 # q6 # qs
        \<and> \<not> startsWith (trim line) CHR '';''
        \<and> \<not> (startsWith (trim line) CHR ''['' \<and> endsWith (trim line) CHR '']'')
        \<and> trim q6 \<noteq> ''1'' \<and> trim q0 \<noteq> [] \<and> trim q1 \<noteq> [] \<and> m (trim q0) = None
        \<longrightarrow>
        airport_line line (True, m) = (True, m(trim q0 \<mapsto> ?r))
        \<and> snd (fold airport_line (line # lines) (True, m)) (trim q0) = Some ?r"
  proof
    assume a: "split_on CHR ''|'' (trim line) = q0 # q1 # q2 # q3 # q4 # q5 # q6 # qs
        \<and> \<not> startsWith (trim line) CHR '';''
        \<and> \<not> (startsWith (trim line) CHR ''['' \<and> endsWith (trim line) CHR '']'')
        \<and> trim q6 \<noteq> ''1'' \<and> trim q0 \<noteq> [] \<and> trim q1 \<noteq> [] \<and> m (trim q0) = None"
    then have st: "airport_line line (True, m) = (True, m(trim q0 \<mapsto> ?r))"
      using airport_line_stores [of line q0 q1 q2 q3 q4 q5 q6 qs m] by simp
    have "(m(trim q0 \<mapsto> ?r)) (trim q0) = Some ?r"
      by simp
    then have "snd (fold airport_line lines (True, m(trim q0 \<mapsto> ?r))) (trim q0) = Some ?r"
      by (rule fold_airport_line_keeps)
    with st show "airport_line line (True, m) = (True, m(trim q0 \<mapsto> ?r))
        \<and> snd (fold airport_line (line # lines) (True, m)) (trim q0) = Some ?r"
      by simp
  qed
  have c2: "m k = Some a \<longrightarrow> snd (fold airport_line lines (inSec, m)) k = Some a"
    by (simp add: fold_airport_line_keeps)
  have c3: "split_on CHR ''|'' (trim line) = u0 # u1 # u2 # u3 # u4 # u5 # u6 # us \<and> trim u6 = ''1''
        \<longrightarrow> snd (airport_line line (inSec, m)) = m"
    by (auto simp: airport_line_def Let_def)
  have c4: "fst (getAirportByIcao None response code) = Some b \<longrightarrow>
        \<not> isPseudo b \<and> icao b = toUpperCase code \<and> name b \<noteq> []"
  proof
    assume "fst (getAirportByIcao None response code) = Some b"
    then have "parse_airports response (toUpperCase code) = Some b"
      by (simp add: getAirportByIcao_def parseVatspyData_def Let_def)
    from parse_airports_inv [OF this]
    show "\<not> isPseudo b \<and> icao b = toUpperCase code \<and> name b \<noteq> []" by simp
  qed
  show ?thesis
    by (intro conjI c1 c_if c2 c3 c4)
qed

text \<open>
  Two lines for KJFK with different names, then a pseudo line for KXYZ. The first KJFK
  line passes the tests on the empty map, so it is stored and its record, with the name
  First, is what the map holds for KJFK after the two later lines; the lookup of \<open>kjfk\<close>
  in the parsed file returns it; the pseudo line changes nothing.
\<close>

theorem parser_admits_first_real_airport_witness:
  "snd (airport_line ''KJFK|First|1|2|JFK|KZNY|0'' (True, Map.empty)) \<noteq> Map.empty
   \<and> (\<exists>p0 p1 p2 p3 p4 p5 p6 ps.
         split_on CHR ''|'' (trim ''KJFK|First|1|2|JFK|KZNY|0'') =
           p0 # p1 # p2 # p3 # p4 # p5 # p6 # ps
         \<and> True \<and> trim p6 \<noteq> ''1'' \<and> trim p0 \<noteq> [] \<and> trim p1 \<noteq> []
         \<and> (Map.empty :: airport_map) (trim p0) = None
         \<and> map_option name
             (snd (airport_line ''KJFK|First|1|2|JFK|KZNY|0'' (True, Map.empty)) (trim p0)) =
             Some (trim p1))
   \<and> snd (fold airport_line
        [''KJFK|First|1|2|JFK|KZNY|0'', ''KJFK|Second|3|4|JFK|KZNY|0'',
         ''KXYZ|Pseudo|5|6|XYZ|KZNY|1''] (True, Map.empty)) ''KJFK'' =
       Some \<lparr>icao = ''KJFK'', name = ''First'', airport_latitude = Num 1,
              airport_longitude = Num 2, iata = Some ''JFK'', fir = ''KZNY'', isPseudo = False\<rparr>
   \<and> snd (fold airport_line [''KJFK|Second|3|4|JFK|KZNY|0'', ''KXYZ|Pseudo|5|6|XYZ|KZNY|1'']
        (True, snd (airport_line ''KJFK|First|1|2|JFK|KZNY|0'' (True, Map.empty)))) ''KJFK'' =
       Some \<lparr>icao = ''KJFK'', name = ''First'', airport_latitude = Num 1,
              airport_longitude = Num 2, iata = Some ''JFK'', fir = ''KZNY'', isPseudo = False\<rparr>
   \<and> snd (airport_line ''KXYZ|Pseudo|5|6|XYZ|KZNY|1'' (True, Map.empty)) = Map.empty
   \<and> fst (getAirportByIcao None
        (Some (''[Airports]'' @ CHR 0x0A # ''KJFK|First|1|2|JFK|KZNY|0'' @ CHR 0x0A #
               ''KJFK|Second|3|4|JFK|KZNY|0'' @ CHR 0x0A # ''KXYZ|Pseudo|5|6|XYZ|KZNY|1''))
        ''kjfk'') =
       Some \<lparr>icao = ''KJFK'', name = ''First'', airport_latitude = Num 1,
              airport_longitude = Num 2, iata = Some ''JFK'', fir = ''KZNY'', isPseudo = False\<rparr>
   \<and> fst (getAirportByIcao None
        (Some (''[Airports]'' @ CHR 0x0A # ''KJFK|First|1|2|JFK|KZNY|0'' @ CHR 0x0A #
               ''KJFK|Second|3|4|JFK|KZNY|0'' @ CHR 0x0A # ''KXYZ|Pseudo|5|6|XYZ|KZNY|1''))
        ''kxyz'') = None"
proof -
  let ?l1 = "''KJFK|First|1|2|JFK|KZNY|0''"
  let ?l2 = "''KJFK|Second|3|4|JFK|KZNY|0''"
  let ?l3 = "''KXYZ|Pseudo|5|6|XYZ|KZNY|1''"
  let ?r = "\<lparr>icao = ''KJFK'', name = ''First'', airport_latitude = Num 1,
              airport_longitude = Num 2, iata = Some ''JFK'', fir = ''KZNY'', isPseudo = False\<rparr>"
  let ?file = "Some (''[Airports]'' @ CHR 0x0A # ''KJFK|First|1|2|JFK|KZNY|0'' @ CHR 0x0A #
               ''KJFK|Second|3|4|JFK|KZNY|0'' @ CHR 0x0A # ''KXYZ|Pseudo|5|6|XYZ|KZNY|1'')"
  have e1: "snd (airport_line ?l1 (True, Map.empty)) ''KJFK'' = Some ?r"
    by (simp add: parser_eval)
  then have h1: "snd (airport_line ?l1 (True, Map.empty)) \<noteq> Map.empty"
    by auto
  note w1 = parser_admits_first_real_airport [THEN conjunct1, rule_format, OF h1]
  have t: "trim ?l1 = ?l1"
    by (simp add: trim_def is_space_def)
  have h2: "split_on CHR ''|'' (trim ?l1) =
        ''KJFK'' # ''First'' # ''1'' # ''2'' # ''JFK'' # ''KZNY'' # ''0'' # []
      \<and> \<not> startsWith (trim ?l1) CHR '';''
      \<and> \<not> (startsWith (trim ?l1) CHR ''['' \<and> endsWith (trim ?l1) CHR '']'')
      \<and> trim ''0'' \<noteq> ''1'' \<and> trim ''KJFK'' \<noteq> [] \<and> trim ''First'' \<noteq> []
      \<and> (Map.empty :: airport_map) (trim ''KJFK'') = None"
    by (simp add: t startsWith_def trim_def is_space_def)
  have k: "trim ''KJFK'' = ''KJFK''" "trim ''First'' = ''First''" "trim ''JFK'' = ''JFK''"
    "trim ''KZNY'' = ''KZNY''" "parseFloat ''1'' = Num 1" "parseFloat ''2'' = Num 2"
    by (simp_all add: parser_eval)
  have w2: "snd (fold airport_line [?l1, ?l2, ?l3] (True, Map.empty)) ''KJFK'' = Some ?r"
    using parser_admits_first_real_airport
      [where line = ?l1 and m = Map.empty and lines = "[?l2, ?l3]",
       THEN conjunct2, THEN conjunct1, rule_format, OF h2, THEN conjunct2]
    by (simp only: k or_undefined_def list.simps if_False)
  have w3: "snd (fold airport_line [?l2, ?l3] (True, snd (airport_line ?l1 (True, Map.empty))))
      ''KJFK'' = Some ?r"
    by (rule parser_admits_first_real_airport
          [where m = "snd (airport_line ''KJFK|First|1|2|JFK|KZNY|0'' (True, Map.empty))"
             and k = "''KJFK''",
           THEN conjunct2, THEN conjunct2, THEN conjunct1, rule_format, OF e1])
  have h4: "split_on CHR ''|'' (trim ?l3) =
        ''KXYZ'' # ''Pseudo'' # ''5'' # ''6'' # ''XYZ'' # ''KZNY'' # ''1'' # [] \<and> trim ''1'' = ''1''"
    by (simp add: trim_def is_space_def)
  have w4: "snd (airport_line ?l3 (True, Map.empty)) = Map.empty"
    by (rule parser_admits_first_real_airport
          [THEN conjunct2, THEN conjunct2, THEN conjunct2, THEN conjunct1, rule_format, OF h4])
  have e5: "fst (getAirportByIcao None ?file ''kjfk'') = Some ?r"
    by (simp add: parser_eval)
  have e6: "fst (getAirportByIcao None ?file ''kxyz'') = None"
    by (simp add: parser_eval)
  show ?thesis
    by (intro conjI h1 w1 w2 w3 w4 e5 e6)
qed

text \<open>
  C9, as the claim states it, fails: a line of the airports section with seven fields whose
  latitude and longitude are not numbers is not skipped. \<open>parseFloat\<close> returns \<open>NaN\<close> for
  both, nothing tests for it, and the record is in the snapshot.
\<close>

theorem unparsable_coordinates_counterexample:
  "parseFloat ''abc'' = NaN \<and> parseFloat ''n/a'' = NaN
   \<and> split_on CHR ''|'' ''KBAD|Bad Field|abc|n/a|BAD|KZNY|0'' =
       [''KBAD'', ''Bad Field'', ''abc'', ''n/a'', ''BAD'', ''KZNY'', ''0'']
   \<and> parse_airports (Some (''[Airports]'' @ CHR 0x0A # ''KBAD|Bad Field|abc|n/a|BAD|KZNY|0''))
        ''KBAD'' =
       Some \<lparr>icao = ''KBAD'', name = ''Bad Field'', airport_latitude = NaN,
              airport_longitude = NaN, iata = Some ''BAD'', fir = ''KZNY'', isPseudo = False\<rparr>"
  by (simp add: parse_airports_def airport_line_def or_undefined_def trim_def startsWith_def
      endsWith_def is_space_def parseFloat_def unsigned_decimal_def exponent_part_def
      starts_with_def is_digit_def Let_def)

text \<open>
  C9, amended. Whether a line of the airports section with at least seven fields is
  admitted does not depend on its latitude and longitude fields: if its pseudo flag is not
  1, its code and name are not empty and its code is not yet in the map, the record is
  stored with whatever \<open>parseFloat\<close> returns for the two fields, \<open>NaN\<close> when a field is
  not a number. The loop then goes on with the remaining lines from that state.
\<close>

theorem unparsable_coordinates_are_stored:
  assumes "split_on CHR ''|'' (trim line) = p0 # p1 # p2 # p3 # p4 # p5 # p6 # ps"
    and "\<not> startsWith (trim line) CHR '';''"
    and "\<not> (startsWith (trim line) CHR ''['' \<and> endsWith (trim line) CHR '']'')"
    and "trim p6 \<noteq> ''1''" and "trim p0 \<noteq> []" and "trim p1 \<noteq> []" and "m (trim p0) = None"
  shows "airport_line line (True, m) =
           (True, m(trim p0 \<mapsto> \<lparr>icao = trim p0, name = trim p1,
                     airport_latitude = parseFloat p2, airport_longitude = parseFloat p3,
                     iata = or_undefined (trim p4), fir = trim p5, isPseudo = False\<rparr>))
         \<and> fold airport_line (line # rest) (True, m) =
             fold airport_line rest
               (True, m(trim p0 \<mapsto> \<lparr>icao = trim p0, name = trim p1,
                     airport_latitude = parseFloat p2, airport_longitude = parseFloat p3,
                     iata = or_undefined (trim p4), fir = trim p5, isPseudo = False\<rparr>))"
  using assms airport_line_stores [of line p0 p1 p2 p3 p4 p5 p6 ps m] by simp

theorem unparsable_coordinates_are_stored_witness:
  "parseFloat ''abc'' = NaN
   \<and> airport_line ''KBAD|Bad Field|abc|12.5|BAD|KZNY|0'' (True, Map.empty) =
       (True, Map.empty(''KBAD'' \<mapsto>
          \<lparr>icao = ''KBAD'', name = ''Bad Field'', airport_latitude = NaN,
           airport_longitude = Num 12.5, iata = Some ''BAD'', fir = ''KZNY'', isPseudo = False\<rparr>))
   \<and> map_option name
        (snd (fold airport_line
           [''KBAD|Bad Field|abc|12.5|BAD|KZNY|0'', ''KLAX|Los Angeles|33.9|-118.4|LAX|KZLA|0'']
           (True, Map.empty)) ''KLAX'') = Some ''Los Angeles''"
proof -
  let ?l = "''KBAD|Bad Field|abc|12.5|BAD|KZNY|0''"
  have t: "trim ?l = ?l"
    by (simp add: trim_def is_space_def)
  have s: "split_on CHR ''|'' (trim ?l) =
      ''KBAD'' # ''Bad Field'' # ''abc'' # ''12.5'' # ''BAD'' # ''KZNY'' # ''0'' # []"
    by (simp add: t)
  have a: "\<not> startsWith (trim ?l) CHR '';''"
    "\<not> (startsWith (trim ?l) CHR ''['' \<and> endsWith (trim ?l) CHR '']'')"
    "trim ''0'' \<noteq> ''1''" "trim ''KBAD'' \<noteq> []" "trim ''Bad Field'' \<noteq> []"
    "Map.empty (trim ''KBAD'') = None"
    by (simp_all add: t startsWith_def trim_def is_space_def)
  note w = unparsable_coordinates_are_stored
    [OF s a, where rest = "[''KLAX|Los Angeles|33.9|-118.4|LAX|KZLA|0'']"]
  have n: "parseFloat ''abc'' = NaN" "parseFloat ''12.5'' = Num 12.5"
    by (simp_all add: parser_eval)
  have k: "trim ''KBAD'' = ''KBAD''" "trim ''Bad Field'' = ''Bad Field''"
    "trim ''BAD'' = ''BAD''" "trim ''KZNY'' = ''KZNY''"
    by (simp_all add: trim_def is_space_def)
  have c1: "airport_line ?l (True, Map.empty) =
       (True, Map.empty(''KBAD'' \<mapsto>
          \<lparr>icao = ''KBAD'', name = ''Bad Field'', airport_latitude = NaN,
           airport_longitude = Num 12.5, iata = Some ''BAD'', fir = ''KZNY'', isPseudo = False\<rparr>))"
    using w [THEN conjunct1] by (simp add: n k or_undefined_def)
  have c2: "map_option name
        (snd (fold airport_line [?l, ''KLAX|Los Angeles|33.9|-118.4|LAX|KZLA|0'']
           (True, Map.empty)) ''KLAX'') = Some ''Los Angeles''"
    unfolding w [THEN conjunct2] by (simp add: parser_eval)
  show ?thesis
    by (intro conjI n(1) c1 c2)
qed

section \<open>Properties of the time of arrival\<close>

text \<open>
  C7. The claim: a minute count that rounds to 60 is carried into the hour, and a duration
  of the form \<open>Xh 60m\<close> is never produced. The code rounds the minutes and formats them
  with no carry: 119.9 nautical miles at 60 knots are 1.99833 hours, the remainder times
  60 is 59.9, which rounds to 60, and the duration is \<open>1h 60m\<close>; 59.9 nautical miles at
  the same speed give \<open>60m\<close>.
\<close>

theorem eta_duration_sixty_minutes:
  "eta_duration 119.9 60 = ''1h 60m'' \<and> eta_duration 59.9 60 = ''60m''"
  by (simp add: eta_duration_def js_round_def show_int_def show_nat.simps Let_def)

text \<open>
  C8. \<open>calculateETA\<close> returns \<open>null\<close> whenever the groundspeed is not positive, the
  pilot has no flight plan or no arrival airport in it, the arrival airport is not in the
  reference data, or one of its coordinates is falsy, which is the case for a coordinate
  that did not parse (\<open>NaN\<close>). The result is then the value \<open>null\<close>: no exception leaves
  the function, and no number, so no \<open>NaN\<close>, reaches the caller.
\<close>

theorem calculateETA_no_eta:
  "(groundspeed pilot \<le> 0
    \<or> flight_plan pilot = None
    \<or> (\<exists>fp. flight_plan pilot = Some fp \<and> arrival fp = [])
    \<or> (\<exists>fp. flight_plan pilot = Some fp
          \<and> fst (getAirportByIcao cache response (arrival fp)) = None)
    \<or> (\<exists>fp arrivalAirport. flight_plan pilot = Some fp
          \<and> fst (getAirportByIcao cache response (arrival fp)) = Some arrivalAirport
          \<and> (js_falsy (airport_latitude arrivalAirport)
               \<or> js_falsy (airport_longitude arrivalAirport))))
   \<longrightarrow> fst (calculateETA now cache response pilot) = None"
  by (auto simp: calculateETA_def split: option.splits prod.splits)

text \<open>
  A pilot bound for KBAD, whose latitude in the reference data is not a number, and a
  pilot standing still bound for KLAX: neither gets a time of arrival.
\<close>

theorem calculateETA_no_eta_witness:
  "fst (getAirportByIcao None
          (Some (''[Airports]'' @ CHR 0x0A # ''KBAD|Bad Field|abc|12.5|BAD|KZNY|0'')) ''KBAD'') =
     Some \<lparr>icao = ''KBAD'', name = ''Bad Field'', airport_latitude = NaN,
            airport_longitude = Num 12.5, iata = Some ''BAD'', fir = ''KZNY'', isPseudo = False\<rparr>
   \<and> js_falsy NaN
   \<and> fst (calculateETA 0 None
          (Some (''[Airports]'' @ CHR 0x0A # ''KBAD|Bad Field|abc|12.5|BAD|KZNY|0''))
          \<lparr>latitude = 40, longitude = -73, groundspeed = 450,
           flight_plan = Some \<lparr>arrival = ''KBAD''\<rparr>\<rparr>) = None
   \<and> fst (calculateETA 0 None
          (Some (''[Airports]'' @ CHR 0x0A # ''KLAX|Los Angeles|33.9|-118.4|LAX|KZLA|0''))
          \<lparr>latitude = 40, longitude = -73, groundspeed = 0,
           flight_plan = Some \<lparr>arrival = ''KLAX''\<rparr>\<rparr>) = None"
proof -
  let ?file = "Some (''[Airports]'' @ CHR 0x0A # ''KBAD|Bad Field|abc|12.5|BAD|KZNY|0'')"
  let ?r = "\<lparr>icao = ''KBAD'', name = ''Bad Field'', airport_latitude = NaN,
            airport_longitude = Num 12.5, iata = Some ''BAD'', fir = ''KZNY'', isPseudo = False\<rparr>"
  let ?p = "\<lparr>latitude = 40, longitude = -73, groundspeed = 450,
           flight_plan = Some \<lparr>arrival = ''KBAD''\<rparr>\<rparr>"
  let ?q = "\<lparr>latitude = 40, longitude = -73, groundspeed = 0,
           flight_plan = Some \<lparr>arrival = ''KLAX''\<rparr>\<rparr>"
  have e: "fst (getAirportByIcao None ?file ''KBAD'') = Some ?r"
    by (simp add: parser_eval)
  have f: "js_falsy NaN"
    by (simp add: js_falsy_def)
  have h: "\<exists>fp arrivalAirport. flight_plan ?p = Some fp
          \<and> fst (getAirportByIcao None ?file (arrival fp)) = Some arrivalAirport
          \<and> (js_falsy (airport_latitude arrivalAirport)
               \<or> js_falsy (airport_longitude arrivalAirport))"
    by (rule exI [of _ "\<lparr>arrival = ''KBAD''\<rparr>"], rule exI [of _ ?r])
      (simp add: parser_eval js_falsy_def)
  have w1: "fst (calculateETA 0 None ?file ?p) = None"
    by (rule calculateETA_no_eta [rule_format]) (intro disjI2, rule h)
  have g: "groundspeed ?q \<le> 0"
    by simp
  have w2: "fst (calculateETA 0 None
          (Some (''[Airports]'' @ CHR 0x0A # ''KLAX|Los Angeles|33.9|-118.4|LAX|KZLA|0'')) ?q) = None"
    by (rule calculateETA_no_eta [rule_format]) (rule disjI1, rule g)
  show ?thesis
    by (intro conjI e f w1 w2)
qed

section \<open>Properties of concurrent calls\<close>

lemma run_calls:
  "cachedAirports s = None \<Longrightarrow>
   run (replicate n Call) s =
     s\<lparr>heap := heap s @ replicate n Map.empty,
       tasks := tasks s @ map Awaiting [length (heap s) ..< length (heap s) + n]\<rparr>"
proof (induction n arbitrary: s)
  case 0
  then show ?case by (simp add: run_def)
next
  case (Suc n)
  let ?s = "step Call s"
  have c: "cachedAirports ?s = None" using Suc.prems by simp
  have "run (replicate (Suc n) Call) s = run (replicate n Call) ?s"
    by (simp add: run_def)
  also have "\<dots> = ?s\<lparr>heap := heap ?s @ replicate n Map.empty,
       tasks := tasks ?s @ map Awaiting [length (heap ?s) ..< length (heap ?s) + n]\<rparr>"
    by (rule Suc.IH [OF c])
  also have "\<dots> = s\<lparr>heap := heap s @ replicate (Suc n) Map.empty,
       tasks := tasks s @ map Awaiting [length (heap s) ..< length (heap s) + Suc n]\<rparr>"
    using Suc.prems by (simp add: upt_rec [of "length (heap s)"] replicate_app_Cons_same)
  finally show ?case .
qed

text \<open>A call that runs from entry to return with no other call in between does what
  \<open>parseVatspyData\<close> above says: with an empty cache it returns a new map holding the
  parsed text and caches it, with a cache it returns the cached map.\<close>

lemma lone_call_agrees:
  "cachedAirports s = None \<Longrightarrow>
     run [Call, Resume (length (tasks s)) response] s =
       s\<lparr>cachedAirports := Some (length (heap s)),
         heap := heap s @ [fst (parseVatspyData None response)],
         tasks := tasks s @ [Returned (length (heap s))],
         parses := parses s + (case response of None \<Rightarrow> 0 | Some _ \<Rightarrow> 1)\<rparr>"
  "cachedAirports s = Some a \<Longrightarrow> a < length (heap s) \<Longrightarrow>
     run [Call] s = s\<lparr>tasks := tasks s @ [Returned a]\<rparr>
     \<and> fst (parseVatspyData (Some (heap s ! a)) response) = heap s ! a"
  by (simp_all add: run_def parseVatspyData_def Let_def)

text \<open>
  C4, as the claim states it, fails: two callers that both enter before either fetch has
  delivered each run the loop over the lines, so there are two parses, and they return two
  different maps.
\<close>

theorem two_callers_parse_twice_counterexample:
  "parses (run [Call, Call, Resume 0 (Some ''[Airports]''), Resume 1 (Some ''[Airports]'')]
            initial_store) = 2
   \<and> tasks (run [Call, Call, Resume 0 (Some ''[Airports]''), Resume 1 (Some ''[Airports]'')]
            initial_store) = [Returned 0, Returned 1]"
  by (simp add: run_def initial_store_def)

lemma list_update_map_upt:
  "x < n \<Longrightarrow> (map f [0..<n])[x := v] = map (f(x := v)) [0..<n]"
  by (rule nth_equalityI) (auto simp: nth_list_update)

text \<open>The fetches of some of \<open>n\<close> waiting callers deliver, each once, in any order.\<close>

lemma run_resumes_any_order:
  "distinct order \<Longrightarrow> set order \<subseteq> {0..<n} \<Longrightarrow>
   run (map (\<lambda>i. Resume i (Some content)) order)
     \<lparr>cachedAirports = None, heap = replicate n Map.empty, tasks = map Awaiting [0..<n],
      parses = 0\<rparr>
   = \<lparr>cachedAirports = (if order = [] then None else Some (last order)),
      heap = map (\<lambda>a. if a \<in> set order then parse_airports (Some content) else Map.empty)
               [0..<n],
      tasks = map (\<lambda>i. if i \<in> set order then Returned i else Awaiting i) [0..<n],
      parses = length order\<rparr>"
proof (induction order rule: rev_induct)
  case Nil
  show ?case
    by (simp add: run_def map_replicate_const)
next
  case (snoc x xs)
  then have d: "distinct xs" and sub: "set xs \<subseteq> {0..<n}" and x: "x < n" "x \<notin> set xs"
    by auto
  let ?P = "parse_airports (Some content)"
  let ?h = "\<lambda>a. if a \<in> set xs then ?P else Map.empty"
  let ?t = "\<lambda>i. if i \<in> set xs then Returned i else Awaiting i"
  let ?s = "\<lparr>cachedAirports = (if xs = [] then None else Some (last xs)),
      heap = map ?h [0..<n], tasks = map ?t [0..<n], parses = length xs\<rparr>"
  have "run (map (\<lambda>i. Resume i (Some content)) (xs @ [x]))
     \<lparr>cachedAirports = None, heap = replicate n Map.empty, tasks = map Awaiting [0..<n],
      parses = 0\<rparr> = step (Resume x (Some content)) ?s"
    using snoc.IH [OF d sub] by (simp add: run_def)
  also have "\<dots> = \<lparr>cachedAirports = Some x,
      heap = (map ?h [0..<n])[x := ?P], tasks = (map ?t [0..<n])[x := Returned x],
      parses = Suc (length xs)\<rparr>"
    using x by simp
  also have "(map ?h [0..<n])[x := ?P] =
      map (\<lambda>a. if a \<in> set (xs @ [x]) then ?P else Map.empty) [0..<n]"
    using x(1) by (simp add: list_update_map_upt fun_upd_def)
  also have "(map ?t [0..<n])[x := Returned x] =
      map (\<lambda>i. if i \<in> set (xs @ [x]) then Returned i else Awaiting i) [0..<n]"
    using x(1) by (simp add: list_update_map_upt fun_upd_def)
  finally show ?case by simp
qed

text \<open>Once the cache holds a map it holds one for ever: no event empties it.\<close>

lemma step_keeps_cache:
  "cachedAirports s \<noteq> None \<Longrightarrow> cachedAirports (step e s) \<noteq> None"
  by (cases e) (auto split: option.splits task.splits)

lemma run_keeps_cache:
  "cachedAirports s \<noteq> None \<Longrightarrow> cachedAirports (run es s) \<noteq> None"
proof (induction es arbitrary: s)
  case Nil
  then show ?case by (simp add: run_def)
next
  case (Cons e es)
  from Cons.prems have "cachedAirports (step e s) \<noteq> None"
    by (rule step_keeps_cache)
  then have "cachedAirports (run es (step e s)) \<noteq> None"
    by (rule Cons.IH)
  then show ?case by (simp add: run_def)
qed

text \<open>
  C4, amended. The cache holds the result of a finished load only. Let \<open>n\<close> callers enter
  before any fetch has delivered; each of them creates its own map and fetches. Let the
  fetches of some of them then deliver the same text, each once, in any order: the loop
  over the lines has run once for each delivery, every caller served has received its own
  map, different from the maps of the others and with the same content, and the cache holds
  the map of the caller served last. When all \<open>n\<close> fetches have delivered there have been
  \<open>n\<close> parses and \<open>n\<close> different maps. A caller that enters when the cache holds a map
  receives that very map, without a fetch and without a parse, and from then on the cache
  always holds a map.
\<close>

theorem concurrent_callers_each_parse:
  "(distinct order \<and> set order \<subseteq> {0..<n} \<longrightarrow>
      run (replicate n Call @ map (\<lambda>i. Resume i (Some content)) order) initial_store =
        \<lparr>cachedAirports = (if order = [] then None else Some (last order)),
         heap = map (\<lambda>a. if a \<in> set order then parse_airports (Some content) else Map.empty)
                  [0..<n],
         tasks = map (\<lambda>i. if i \<in> set order then Returned i else Awaiting i) [0..<n],
         parses = length order\<rparr>)
   \<and> (distinct order \<and> set order = {0..<n} \<and> 0 < n \<longrightarrow>
      run (replicate n Call @ map (\<lambda>i. Resume i (Some content)) order) initial_store =
        \<lparr>cachedAirports = Some (last order),
         heap = replicate n (parse_airports (Some content)),
         tasks = map Returned [0..<n],
         parses = n\<rparr>)
   \<and> (cachedAirports s = Some a \<longrightarrow>
        step Call s = s\<lparr>tasks := tasks s @ [Returned a]\<rparr>
        \<and> cachedAirports (run es s) \<noteq> None)"
proof -
  have calls: "run (replicate n Call) initial_store =
      \<lparr>cachedAirports = None, heap = replicate n Map.empty, tasks = map Awaiting [0..<n],
       parses = 0\<rparr>"
    using run_calls [of initial_store n] by (simp add: initial_store_def)
  have part: "run (replicate n Call @ map (\<lambda>i. Resume i (Some content)) order) initial_store =
        \<lparr>cachedAirports = (if order = [] then None else Some (last order)),
         heap = map (\<lambda>a. if a \<in> set order then parse_airports (Some content) else Map.empty)
                  [0..<n],
         tasks = map (\<lambda>i. if i \<in> set order then Returned i else Awaiting i) [0..<n],
         parses = length order\<rparr>"
    if "distinct order" "set order \<subseteq> {0..<n}" for order
  proof -
    have "run (replicate n Call @ map (\<lambda>i. Resume i (Some content)) order) initial_store =
        run (map (\<lambda>i. Resume i (Some content)) order) (run (replicate n Call) initial_store)"
      by (simp add: run_def)
    then show ?thesis
      using run_resumes_any_order [OF that, of content] calls by simp
  qed
  have c1: "distinct order \<and> set order \<subseteq> {0..<n} \<longrightarrow>
      run (replicate n Call @ map (\<lambda>i. Resume i (Some content)) order) initial_store =
        \<lparr>cachedAirports = (if order = [] then None else Some (last order)),
         heap = map (\<lambda>a. if a \<in> set order then parse_airports (Some content) else Map.empty)
                  [0..<n],
         tasks = map (\<lambda>i. if i \<in> set order then Returned i else Awaiting i) [0..<n],
         parses = length order\<rparr>"
    using part by blast
  have c2: "distinct order \<and> set order = {0..<n} \<and> 0 < n \<longrightarrow>
      run (replicate n Call @ map (\<lambda>i. Resume i (Some content)) order) initial_store =
        \<lparr>cachedAirports = Some (last order),
         heap = replicate n (parse_airports (Some content)),
         tasks = map Returned [0..<n],
         parses = n\<rparr>"
  proof
    assume a: "distinct order \<and> set order = {0..<n} \<and> 0 < n"
    then have ne: "order \<noteq> []" by auto
    from a have len: "length order = n"
      using distinct_card [of order] by simp
    have "map (\<lambda>a. if a \<in> set order then parse_airports (Some content) else Map.empty)
        [0..<n] = map (\<lambda>a. parse_airports (Some content)) [0..<n]"
      using a by (intro map_cong) auto
    then have h: "map (\<lambda>a. if a \<in> set order then parse_airports (Some content) else Map.empty)
        [0..<n] = replicate n (parse_airports (Some content))"
      by (simp add: map_replicate_const)
    have t: "map (\<lambda>i. if i \<in> set order then Returned i else Awaiting i) [0..<n] =
        map Returned [0..<n]"
      using a by (simp cong: map_cong)
    from a have "distinct order" "set order \<subseteq> {0..<n}" by auto
    from part [OF this] ne len h t
    show "run (replicate n Call @ map (\<lambda>i. Resume i (Some content)) order) initial_store =
        \<lparr>cachedAirports = Some (last order),
         heap = replicate n (parse_airports (Some content)),
         tasks = map Returned [0..<n],
         parses = n\<rparr>"
      by simp
  qed
  have c3: "cachedAirports s = Some a \<longrightarrow>
        step Call s = s\<lparr>tasks := tasks s @ [Returned a]\<rparr>
        \<and> cachedAirports (run es s) \<noteq> None"
    using run_keeps_cache [of s es] by simp
  show ?thesis
    by (intro conjI c1 c2 c3)
qed

text \<open>Three callers at once, whose fetches deliver in the order 2, 0, 1; then a fourth
  caller after the three loads have finished, who gets the map of caller 1.\<close>

theorem concurrent_callers_each_parse_witness:
  "distinct [2, 0, 1 :: nat] \<and> set [2, 0, 1 :: nat] = {0..<3}
   \<and> run (replicate 3 Call @ map (\<lambda>i. Resume i (Some ''[Airports]'')) [2, 0, 1]) initial_store =
       \<lparr>cachedAirports = Some 1,
        heap = replicate 3 (parse_airports (Some ''[Airports]'')),
        tasks = [Returned 0, Returned 1, Returned 2],
        parses = 3\<rparr>
   \<and> run (replicate 3 Call @ map (\<lambda>i. Resume i (Some ''[Airports]'')) [2]) initial_store =
       \<lparr>cachedAirports = Some 2,
        heap = [Map.empty, Map.empty, parse_airports (Some ''[Airports]'')],
        tasks = [Awaiting 0, Awaiting 1, Returned 2],
        parses = 1\<rparr>
   \<and> tasks (step Call
        (run (replicate 3 Call @ map (\<lambda>i. Resume i (Some ''[Airports]'')) [2, 0, 1])
           initial_store)) = [Returned 0, Returned 1, Returned 2, Returned 1]
   \<and> parses (step Call
        (run (replicate 3 Call @ map (\<lambda>i. Resume i (Some ''[Airports]'')) [2, 0, 1])
           initial_store)) = 3"
proof -
  let ?s = "run (replicate 3 Call @ map (\<lambda>i. Resume i (Some ''[Airports]'')) [2, 0, 1])
       initial_store"
  have set3: "{0..<3::nat} = {0, 1, 2}"
    by auto
  have h: "distinct [2, 0, 1 :: nat] \<and> set [2, 0, 1 :: nat] = {0..<3}"
    by (auto simp: set3)
  then have h2: "distinct [2, 0, 1 :: nat] \<and> set [2, 0, 1 :: nat] = {0..<3} \<and> (0::nat) < 3"
    by simp
  have s: "?s = \<lparr>cachedAirports = Some 1,
      heap = replicate 3 (parse_airports (Some ''[Airports]'')),
      tasks = [Returned 0, Returned 1, Returned 2], parses = 3\<rparr>"
    using concurrent_callers_each_parse
      [where order = "[2, 0, 1]" and n = 3 and content = "''[Airports]''",
       THEN conjunct2, THEN conjunct1, rule_format, OF h2]
    by (simp add: upt_rec)
  have h1: "distinct [2 :: nat] \<and> set [2 :: nat] \<subseteq> {0..<3}"
    by simp
  have p: "run (replicate 3 Call @ map (\<lambda>i. Resume i (Some ''[Airports]'')) [2]) initial_store =
       \<lparr>cachedAirports = Some 2,
        heap = [Map.empty, Map.empty, parse_airports (Some ''[Airports]'')],
        tasks = [Awaiting 0, Awaiting 1, Returned 2],
        parses = 1\<rparr>"
    using concurrent_callers_each_parse
      [where order = "[2]" and n = 3 and content = "''[Airports]''",
       THEN conjunct1, rule_format, OF h1]
    by (simp add: upt_rec)
  have c: "cachedAirports ?s = Some 1"
    unfolding s by simp
  have n: "step Call ?s = ?s\<lparr>tasks := tasks ?s @ [Returned 1]\<rparr>"
    by (rule concurrent_callers_each_parse
          [THEN conjunct2, THEN conjunct2, rule_format, OF c, THEN conjunct1])
  have b: "tasks (step Call ?s) = [Returned 0, Returned 1, Returned 2, Returned 1]"
    "parses (step Call ?s) = 3"
    unfolding n s by simp_all
  show ?thesis
    by (intro conjI h [THEN conjunct1] h [THEN conjunct2] s p b)
qed

end
